theory Spec2Isabelle
  imports Complex_Main "HOL-Library.Sublist"
begin

section \<open>Strings of the host language\<close>

text \<open>
  A string is a list of characters; a character stands for one code unit, and the model
  covers the code units below 256. The white space of \<open>trim\<close> and of the regular
  expression class \<open>\s\<close> is then: tab, line feed, vertical tab, form feed, carriage
  return, space and the no-break space.
\<close>

definition is_ws :: "char \<Rightarrow> bool" where
  "is_ws c = (c = CHR 0x09 \<or> c = CHR 0x0A \<or> c = CHR 0x0B \<or> c = CHR 0x0C
     \<or> c = CHR 0x0D \<or> c = CHR 0x20 \<or> c = CHR 0xA0)"

definition trim :: "string \<Rightarrow> string" where
  "trim s = rev (dropWhile is_ws (rev (dropWhile is_ws s)))"

definition startsWith :: "string \<Rightarrow> string \<Rightarrow> bool" where
  "startsWith s p = (take (length p) s = p)"

text \<open>\<open>s.includes(sub)\<close>: some suffix of \<open>s\<close> starts with \<open>sub\<close>.\<close>

fun includes_str :: "string \<Rightarrow> string \<Rightarrow> bool" where
  "includes_str [] sub = (sub = [])"
| "includes_str (c # cs) sub = (startsWith (c # cs) sub \<or> includes_str cs sub)"

text \<open>
  \<open>s.split(sep)\<close> for a non-empty separator: the pieces between the occurrences of
  \<open>sep\<close>, found from left to right without overlap. \<open>split_go\<close> carries the number
  of characters of a separator still to be skipped.
\<close>

fun split_go :: "string \<Rightarrow> nat \<Rightarrow> string \<Rightarrow> string list" where
  "split_go sep k [] = [[]]"
| "split_go sep (Suc k) (c # cs) = split_go sep k cs"
| "split_go sep 0 (c # cs) =
     (if startsWith (c # cs) sep then [] # split_go sep (length sep - 1) cs
      else (case split_go sep 0 cs of p # ps \<Rightarrow> (c # p) # ps | [] \<Rightarrow> [[c]]))"

definition split :: "string \<Rightarrow> string \<Rightarrow> string list" where
  "split s sep = split_go sep 0 s"

fun join :: "string list \<Rightarrow> string \<Rightarrow> string" where
  "join [] sep = []"
| "join [p] sep = p"
| "join (p # q # ps) sep = p @ sep @ join (q # ps) sep"

section \<open>Passage names\<close>

text \<open>The character class \<open>[[\]{}#$\/]\<close> of \<open>validatePassageName\<close>.\<close>

definition invalid_name_chars :: "char list" where
  "invalid_name_chars = ''[]{}#$/''"

definition reserved :: "string list" where
  "reserved = [''__proto__'', ''constructor'', ''prototype'', ''hasOwnProperty'',
     ''toString'', ''valueOf'']"

text \<open>\<open>validatePassageName\<close> returns an error message, or \<open>None\<close> for a valid name.\<close>

definition validatePassageName :: "string \<Rightarrow> string option" where
  "validatePassageName name =
     (if name = [] \<or> trim name = [] then Some ''Passage name cannot be empty''
      else if length name > 200 then Some ''Passage name is too long (max 200 characters)''
      else if includes_str name ''.'' then Some ''Passage name cannot contain dots''
      else if list_ex (\<lambda>c. c \<in> set invalid_name_chars) name
        then Some ''Passage name contains invalid characters''
      else if name \<in> set reserved then Some ''Passage name is reserved''
      else None)"

section \<open>Regular expressions\<close>

text \<open>
  The regular expressions of the source use literals, quantified character classes,
  capture groups, optional groups and the anchors. An expression is a list of items,
  matched from left to right by backtracking: a greedy quantifier tries the longest run
  first, a lazy one the shortest, an optional group is tried before it is skipped.
\<close>

datatype cls = Dot | Space | NoneOf string | OneOf string

fun in_cls :: "cls \<Rightarrow> char \<Rightarrow> bool" where
  "in_cls Dot c = (c \<noteq> CHR 0x0A \<and> c \<noteq> CHR 0x0D)"
| "in_cls Space c = is_ws c"
| "in_cls (NoneOf cs) c = (c \<notin> set cs)"
| "in_cls (OneOf cs) c = (c \<in> set cs)"

datatype item =
    Chr char
  | One cls
  | Greedy nat cls
  | Lazy nat cls
  | Opt "item list"
  | Open nat
  | Close nat
  | Bol
  | Eol

text \<open>
  The captures: for each open group the input left when it was opened, and for each
  closed group the text it matched.
\<close>

type_synonym caps = "(nat \<times> string) list \<times> (nat \<times> string) list"

type_synonym matcher = "string \<Rightarrow> caps \<Rightarrow> (string \<times> caps) option"

fun first_some :: "(nat \<Rightarrow> 'a option) \<Rightarrow> nat list \<Rightarrow> 'a option" where
  "first_some f [] = None"
| "first_some f (n # ns) = (case f n of Some r \<Rightarrow> Some r | None \<Rightarrow> first_some f ns)"

definition run :: "cls \<Rightarrow> string \<Rightarrow> nat" where
  "run cl t = length (takeWhile (in_cls cl) t)"

definition close_group :: "nat \<Rightarrow> string \<Rightarrow> caps \<Rightarrow> caps" where
  "close_group g t cp =
     (case map_of (fst cp) g of
        None \<Rightarrow> cp
      | Some t0 \<Rightarrow> (fst cp, (g, take (length t0 - length t) t0) # snd cp))"

text \<open>
  \<open>mi s it k\<close> matches the item \<open>it\<close> on the input that is left and goes on with the
  continuation \<open>k\<close>; \<open>s\<close> is the whole subject, for the anchor \<open>^\<close>.
\<close>

fun mi :: "string \<Rightarrow> item \<Rightarrow> matcher \<Rightarrow> matcher" where
  "mi s (Chr c) k = (\<lambda>t cp. case t of [] \<Rightarrow> None | x # t' \<Rightarrow> if x = c then k t' cp else None)"
| "mi s (One cl) k =
     (\<lambda>t cp. case t of [] \<Rightarrow> None | x # t' \<Rightarrow> if in_cls cl x then k t' cp else None)"
| "mi s (Greedy mn cl) k =
     (\<lambda>t cp. first_some (\<lambda>n. k (drop n t) cp) (rev [mn ..< Suc (run cl t)]))"
| "mi s (Lazy mn cl) k =
     (\<lambda>t cp. first_some (\<lambda>n. k (drop n t) cp) [mn ..< Suc (run cl t)])"
| "mi s (Opt its) k =
     (\<lambda>t cp. case foldr (\<lambda>f k'. f k') (map (mi s) its) k t cp of
        Some r \<Rightarrow> Some r
      | None \<Rightarrow> k t cp)"
| "mi s (Open g) k = (\<lambda>t cp. k t ((g, t) # fst cp, snd cp))"
| "mi s (Close g) k = (\<lambda>t cp. k t (close_group g t cp))"
| "mi s Bol k = (\<lambda>t cp. if length t = length s then k t cp else None)"
| "mi s Eol k = (\<lambda>t cp. if t = [] then k t cp else None)"

text \<open>A match of the expression at the head of \<open>t\<close>: the input left and the captures.\<close>

definition match_at :: "item list \<Rightarrow> string \<Rightarrow> string \<Rightarrow> (string \<times> caps) option" where
  "match_at re s t = foldr (\<lambda>f k. f k) (map (mi s) re) (\<lambda>t' cp. Some (t', cp)) t ([], [])"

definition group :: "caps \<Rightarrow> nat \<Rightarrow> string option" where
  "group cp g = map_of (snd cp) g"

text \<open>
  \<open>s.replace(re, f)\<close> for a global expression: the matches are found from left to
  right, each search starting where the last match ended (one character further after
  an empty match); \<open>f\<close> gets the matched text and the captures. \<open>k\<close> counts the
  characters of the last match still to be skipped.
\<close>

fun replace_go :: "item list \<Rightarrow> (string \<Rightarrow> caps \<Rightarrow> string) \<Rightarrow> string \<Rightarrow> nat \<Rightarrow> string \<Rightarrow> string" where
  "replace_go re f s (Suc k) [] = []"
| "replace_go re f s (Suc k) (c # t) = replace_go re f s k t"
| "replace_go re f s 0 [] =
     (case match_at re s [] of Some (r, cp) \<Rightarrow> f [] cp | None \<Rightarrow> [])"
| "replace_go re f s 0 (c # t) =
     (case match_at re s (c # t) of
        Some (r, cp) \<Rightarrow>
          (let n = length (c # t) - length r
           in f (take n (c # t)) cp @
              (if n = 0 then c # replace_go re f s 0 t else replace_go re f s (n - 1) t))
      | None \<Rightarrow> c # replace_go re f s 0 t)"

definition replace_all :: "string \<Rightarrow> item list \<Rightarrow> (string \<Rightarrow> caps \<Rightarrow> string) \<Rightarrow> string" where
  "replace_all s re f = replace_go re f s 0 s"

text \<open>\<open>s.match(re)\<close> for a global expression: the matched texts (none: the empty list).\<close>

fun match_go :: "item list \<Rightarrow> string \<Rightarrow> nat \<Rightarrow> string \<Rightarrow> string list" where
  "match_go re s (Suc k) [] = []"
| "match_go re s (Suc k) (c # t) = match_go re s k t"
| "match_go re s 0 [] =
     (case match_at re s [] of Some (r, cp) \<Rightarrow> [[]] | None \<Rightarrow> [])"
| "match_go re s 0 (c # t) =
     (case match_at re s (c # t) of
        Some (r, cp) \<Rightarrow>
          (let n = length (c # t) - length r
           in take n (c # t) # (if n = 0 then match_go re s 0 t else match_go re s (n - 1) t))
      | None \<Rightarrow> match_go re s 0 t)"

definition match_all :: "string \<Rightarrow> item list \<Rightarrow> string list" where
  "match_all s re = match_go re s 0 s"

text \<open>\<open>s.match(re)\<close> for an expression that is not global: the captures of the first match.\<close>

fun exec_go :: "item list \<Rightarrow> string \<Rightarrow> string \<Rightarrow> caps option" where
  "exec_go re s [] = map_option snd (match_at re s [])"
| "exec_go re s (c # t) =
     (case match_at re s (c # t) of Some (r, cp) \<Rightarrow> Some cp | None \<Rightarrow> exec_go re s t)"

definition exec :: "string \<Rightarrow> item list \<Rightarrow> caps option" where
  "exec s re = exec_go re s s"

section \<open>Link extraction\<close>

text \<open>The expression \<open>/\[\[([^\]]+)\]\]/g\<close> of \<open>extractLinks\<close>.\<close>

definition link_re :: "item list" where
  "link_re = [Chr CHR ''['', Chr CHR ''['', Open 1, Greedy 1 (NoneOf '']''), Close 1,
     Chr CHR '']'', Chr CHR '']'']"

text \<open>\<open>m.slice(2, -2)\<close>.\<close>

definition slice_2_2 :: "string \<Rightarrow> string" where
  "slice_2_2 m = take (length m - 4) (drop 2 m)"

text \<open>The function mapped over the matches: from a marker to its target.\<close>

definition link_target :: "string \<Rightarrow> string" where
  "link_target m =
     (let inner = slice_2_2 m
      in if includes_str inner ''->'' then trim (split inner ''->'' ! 1)
         else (let parts = split inner ''|'' in trim (parts ! (length parts - 1))))"

definition extractLinks :: "string \<Rightarrow> string list" where
  "extractLinks content =
     (if content = [] then [] else map link_target (match_all content link_re))"

section \<open>Objects\<close>

text \<open>
  An object is the list of its own properties in the order in which the host language
  enumerates them: the keys that are array indices (canonical decimal numerals below
  \<open>2^32 - 1\<close>) in ascending order first, then the other keys in the order of their
  creation.
\<close>

type_synonym 'v obj = "(string \<times> 'v) list"

definition is_digit :: "char \<Rightarrow> bool" where
  "is_digit c = (48 \<le> (of_char c :: int) \<and> (of_char c :: int) \<le> 57)"

definition digit_val :: "char \<Rightarrow> int" where
  "digit_val c = of_char c - 48"

definition digits_val :: "string \<Rightarrow> int" where
  "digits_val ds = foldl (\<lambda>n c. 10 * n + digit_val c) 0 ds"

definition index_key :: "string \<Rightarrow> int option" where
  "index_key k =
     (if k \<noteq> [] \<and> list_all is_digit k \<and> (if hd k = CHR ''0'' then k = ''0'' else True)
         \<and> digits_val k < 4294967295
      then Some (digits_val k) else None)"

definition obj_get :: "'v obj \<Rightarrow> string \<Rightarrow> 'v option" where
  "obj_get ob k = map_of ob k"

definition obj_keys :: "'v obj \<Rightarrow> string list" where
  "obj_keys ob = map fst ob"

definition obj_values :: "'v obj \<Rightarrow> 'v list" where
  "obj_values ob = map snd ob"

fun obj_insert_index :: "int \<Rightarrow> string \<Rightarrow> 'v \<Rightarrow> 'v obj \<Rightarrow> 'v obj" where
  "obj_insert_index n k v [] = [(k, v)]"
| "obj_insert_index n k v ((k', v') # kvs) =
     (case index_key k' of
        Some n' \<Rightarrow>
          if n' < n then (k', v') # obj_insert_index n k v kvs else (k, v) # (k', v') # kvs
      | None \<Rightarrow> (k, v) # (k', v') # kvs)"

text \<open>\<open>ob[k] = v\<close> for a key other than \<open>__proto__\<close>.\<close>

definition obj_set :: "'v obj \<Rightarrow> string \<Rightarrow> 'v \<Rightarrow> 'v obj" where
  "obj_set ob k v =
     (if k \<in> set (obj_keys ob) then map (\<lambda>(k', v'). if k' = k then (k', v) else (k', v')) ob
      else (case index_key k of
              Some n \<Rightarrow> obj_insert_index n k v ob
            | None \<Rightarrow> ob @ [(k, v)]))"

text \<open>\<open>delete ob[k]\<close>.\<close>

definition obj_delete :: "'v obj \<Rightarrow> string \<Rightarrow> 'v obj" where
  "obj_delete ob k = filter (\<lambda>(k', v'). k' \<noteq> k) ob"

text \<open>
  The properties that every object inherits: \<open>ob[k]\<close> is truthy for these keys also when
  \<open>ob\<close> has no own property \<open>k\<close>.
\<close>

definition object_prototype_keys :: "string list" where
  "object_prototype_keys = [''constructor'', ''__defineGetter__'', ''__defineSetter__'',
     ''hasOwnProperty'', ''__lookupGetter__'', ''__lookupSetter__'', ''isPrototypeOf'',
     ''propertyIsEnumerable'', ''toString'', ''valueOf'', ''__proto__'', ''toLocaleString'']"

text \<open>Whether \<open>ob[k]\<close> is truthy, for an object whose own values are objects.\<close>

definition has_prop :: "'v obj \<Rightarrow> string \<Rightarrow> bool" where
  "has_prop ob k = (case obj_get ob k of Some v \<Rightarrow> True | None \<Rightarrow> k \<in> set object_prototype_keys)"

section \<open>The story\<close>

text \<open>
  The fields of a passage and of a story, named as in the source with a prefix (\<open>p_\<close>,
  \<open>s_\<close>). Coordinates are rational numbers, sizes are integers. A field that the source
  may leave out is kept with the value that the source's \<open>||\<close> defaults treat like a
  missing one: the empty string, the empty list, zero.
\<close>

record passage =
  p_name :: string
  p_content :: string
  p_tags :: "string list"
  p_x :: rat
  p_y :: rat
  p_width :: int
  p_height :: int

record story =
  s_title :: string
  s_startPassage :: string
  s_passages :: "passage obj"
  s_ifid :: string
  s_format :: string
  s_formatVersion :: string
  s_zoom :: rat
  s_tags :: string
  s_stylesheet :: string
  s_javascript :: string
  s_tagColors :: "string obj"

section \<open>Deleting a passage\<close>

text \<open>
  The click handler of \<open>deletePassageBtn\<close>, on the current story. Its inputs from the
  page: whether the user owns the story, the selected passage, the answer to the
  confirmation dialog, and whether the write to the database succeeded. It leaves the
  story as it was unless it ends in \<open>Deleted\<close>, which carries the new start passage when
  the start was repointed.
\<close>

datatype delete_outcome =
    DelNotOwner
  | DelNoSelection
  | LastPassage
  | DelCancelled
  | DelDbError
  | Deleted "string option"

definition deletePassageBtn_click ::
  "bool \<Rightarrow> string option \<Rightarrow> bool \<Rightarrow> bool \<Rightarrow> story \<Rightarrow> delete_outcome \<times> story" where
  "deletePassageBtn_click owner selected confirmed db_ok st =
     (if \<not> owner then (DelNotOwner, st)
      else (case selected of
          None \<Rightarrow> (DelNoSelection, st)
        | Some selectedPassage \<Rightarrow>
            if selectedPassage = [] then (DelNoSelection, st)
            else if length (obj_keys (s_passages st)) \<le> 1 then (LastPassage, st)
            else if \<not> confirmed then (DelCancelled, st)
            else
              (let newStart =
                     (if s_startPassage st = selectedPassage
                      then find (\<lambda>n. n \<noteq> selectedPassage) (obj_keys (s_passages st))
                      else None)
               in if \<not> db_ok then (DelDbError, st)
                  else (Deleted newStart,
                        st\<lparr>s_passages := obj_delete (s_passages st) selectedPassage,
                           s_startPassage :=
                             (case newStart of Some n \<Rightarrow> n | None \<Rightarrow> s_startPassage st)\<rparr>))))"

section \<open>Example values\<close>

definition mk_passage :: "string \<Rightarrow> string \<Rightarrow> passage" where
  "mk_passage n c =
     \<lparr>p_name = n, p_content = c, p_tags = [], p_x = 100, p_y = 100, p_width = 100, p_height = 100\<rparr>"

definition mk_story :: "string \<Rightarrow> passage list \<Rightarrow> story" where
  "mk_story start ps =
     \<lparr>s_title = ''Tale'', s_startPassage = start, s_passages = map (\<lambda>p. (p_name p, p)) ps,
      s_ifid = ''0F5C3E7A-1B2D-4C3E-8F90-A1B2C3D4E5F6'', s_format = ''Harlowe'',
      s_formatVersion = ''3.3.9'', s_zoom = 1, s_tags = [], s_stylesheet = [],
      s_javascript = [], s_tagColors = []\<rparr>"

section \<open>Renaming a passage\<close>

text \<open>
  The three expressions of the link rewrite in \<open>closePassageEditor\<close>:
  \<open>/\[\[([^\]]*?)\|([^\]]*?)\]\]/g\<close>, \<open>/\[\[([^\]]*?)->([^\]]*?)\]\]/g\<close> and
  \<open>/\[\[([^\]|>]*?)\]\]/g\<close>.
\<close>

definition rename_bar_re :: "item list" where
  "rename_bar_re = [Chr CHR ''['', Chr CHR ''['', Open 1, Lazy 0 (NoneOf '']''), Close 1,
     Chr CHR ''|'', Open 2, Lazy 0 (NoneOf '']''), Close 2, Chr CHR '']'', Chr CHR '']'']"

definition rename_arrow_re :: "item list" where
  "rename_arrow_re = [Chr CHR ''['', Chr CHR ''['', Open 1, Lazy 0 (NoneOf '']''), Close 1,
     Chr CHR ''-'', Chr CHR ''>'', Open 2, Lazy 0 (NoneOf '']''), Close 2,
     Chr CHR '']'', Chr CHR '']'']"

definition rename_bare_re :: "item list" where
  "rename_bare_re = [Chr CHR ''['', Chr CHR ''['', Open 1, Lazy 0 (NoneOf '']|>''), Close 1,
     Chr CHR '']'', Chr CHR '']'']"

text \<open>The text of a capture group that took part in the match.\<close>

definition grp :: "caps \<Rightarrow> nat \<Rightarrow> string" where
  "grp cp g = (case group cp g of Some t \<Rightarrow> t | None \<Rightarrow> [])"

text \<open>The three replacements applied to the content of a passage, in the order of the source.\<close>

definition rewrite_links :: "string \<Rightarrow> string \<Rightarrow> string \<Rightarrow> string" where
  "rewrite_links oldName newName content =
     replace_all
       (replace_all
          (replace_all content rename_bar_re
             (\<lambda>m cp. if trim (grp cp 2) = oldName
                then ''[['' @ grp cp 1 @ ''|'' @ newName @ '']]'' else m))
          rename_arrow_re
          (\<lambda>m cp. if trim (grp cp 2) = oldName
             then ''[['' @ grp cp 1 @ ''->'' @ newName @ '']]'' else m))
       rename_bare_re
       (\<lambda>m cp. if trim (grp cp 1) = oldName then ''[['' @ newName @ '']]'' else m)"

datatype edit_outcome =
    EditClosed
  | InvalidName string
  | NameCollision
  | SaveError
  | Saved

text \<open>
  \<open>closePassageEditor\<close> on the current story. Its inputs from the page: whether the user
  owns the story, the selected passage, the values of the name and content fields, and
  whether the write to the database succeeded. The spread of a passage that does not exist has
  only the name and the content.
\<close>

definition closePassageEditor ::
  "bool \<Rightarrow> string option \<Rightarrow> string \<Rightarrow> string \<Rightarrow> bool \<Rightarrow> story \<Rightarrow> edit_outcome \<times> story" where
  "closePassageEditor owner selected nameInput contentInput db_ok st =
     (case selected of
        None \<Rightarrow> (EditClosed, st)
      | Some selectedPassage \<Rightarrow>
          if selectedPassage = [] then (EditClosed, st)
          else if \<not> owner then (EditClosed, st)
          else
            (let oldName = selectedPassage;
                 newName = (if trim nameInput = [] then oldName else trim nameInput);
                 content = contentInput
             in if newName \<noteq> oldName \<and> validatePassageName newName \<noteq> None
                then (InvalidName (the (validatePassageName newName)), st)
                else if newName \<noteq> oldName then
                  (if has_prop (s_passages st) newName then (NameCollision, st)
                   else
                     (let passages = s_passages st;
                          passage = (case obj_get passages oldName of
                              Some p \<Rightarrow> p
                            | None \<Rightarrow> \<lparr>p_name = [], p_content = [], p_tags = [], p_x = 0,
                                       p_y = 0, p_width = 0, p_height = 0\<rparr>);
                          passages1 = obj_delete passages oldName;
                          passages2 = obj_set passages1 newName
                            (passage\<lparr>p_name := newName, p_content := content\<rparr>);
                          passages3 = map (\<lambda>(k, p).
                            (k, if p_name p = newName then p
                                else if p_content p = [] then p
                                else p\<lparr>p_content := rewrite_links oldName newName (p_content p)\<rparr>))
                            passages2;
                          startPassage = (if s_startPassage st = oldName then newName
                                          else s_startPassage st)
                      in if \<not> db_ok then (SaveError, st)
                         else (Saved, st\<lparr>s_passages := passages3, s_startPassage := startPassage\<rparr>)))
                else if \<not> db_ok then (SaveError, st)
                else (case obj_get (s_passages st) oldName of
                        None \<Rightarrow> (SaveError, st)
                      | Some p \<Rightarrow>
                          (Saved, st\<lparr>s_passages :=
                             obj_set (s_passages st) oldName (p\<lparr>p_content := content\<rparr>)\<rparr>))))"

section \<open>JSON values and \<open>JSON.parse\<close>\<close>

text \<open>
  The values that \<open>JSON.parse\<close> returns. A number is the rational value of its decimal
  notation; the rounding of the host's floating-point numbers is outside the model.
\<close>

datatype json =
    JNull
  | JBool bool
  | JNum rat
  | JStr string
  | JArr "json list"
  | JObj "(string \<times> json) list"

datatype tok =
    TLBrace | TRBrace | TLBrack | TRBrack | TColon | TComma
  | TStr string | TNum rat | TTrue | TFalse | TNull

definition is_json_ws :: "char \<Rightarrow> bool" where
  "is_json_ws c = (c = CHR 0x20 \<or> c = CHR 0x09 \<or> c = CHR 0x0A \<or> c = CHR 0x0D)"

definition hex_val :: "char \<Rightarrow> int option" where
  "hex_val c =
     (let n = (of_char c :: int)
      in if 48 \<le> n \<and> n \<le> 57 then Some (n - 48)
         else if 65 \<le> n \<and> n \<le> 70 then Some (n - 55)
         else if 97 \<le> n \<and> n \<le> 102 then Some (n - 87)
         else None)"

text \<open>The character of \<open>\uXXXX\<close>, for a code unit below 256.\<close>

definition hex4 :: "string \<Rightarrow> char option" where
  "hex4 h =
     (case map hex_val h of
        [Some a, Some b, Some c, Some d] \<Rightarrow>
          if a = 0 \<and> b = 0 then Some (char_of (16 * c + d)) else None
      | _ \<Rightarrow> None)"

definition unescape :: "char \<Rightarrow> char option" where
  "unescape e =
     (if e = CHR 0x22 then Some (CHR 0x22)
      else if e = CHR 0x5C then Some (CHR 0x5C)
      else if e = CHR ''/'' then Some (CHR ''/'')
      else if e = CHR ''b'' then Some (CHR 0x08)
      else if e = CHR ''f'' then Some (CHR 0x0C)
      else if e = CHR ''n'' then Some (CHR 0x0A)
      else if e = CHR ''r'' then Some (CHR 0x0D)
      else if e = CHR ''t'' then Some (CHR 0x09)
      else None)"

text \<open>
  A string token, read after its opening quote: the text and the number of characters
  read, the closing quote included.
\<close>

fun lex_string :: "string \<Rightarrow> (string \<times> nat) option" where
  "lex_string [] = None"
| "lex_string (c # cs) =
     (if c = CHR 0x22 then Some ([], 1)
      else if c = CHR 0x5C then
        (case cs of
           [] \<Rightarrow> None
         | e # cs' \<Rightarrow>
             if e = CHR ''u'' then
               (case hex4 (take 4 cs') of
                  None \<Rightarrow> None
                | Some ch \<Rightarrow> map_option (\<lambda>(s, n). (ch # s, n + 6)) (lex_string (drop 4 cs')))
             else
               (case unescape e of
                  None \<Rightarrow> None
                | Some ch \<Rightarrow> map_option (\<lambda>(s, n). (ch # s, n + 2)) (lex_string cs')))
      else if (of_char c :: int) < 32 then None
      else map_option (\<lambda>(s, n). (c # s, n + 1)) (lex_string cs))"

text \<open>
  A number token at the head of the input, read in four steps: the sign, the integer
  part (a single \<open>0\<close> or digits), the fraction after a point, the exponent after
  \<open>e\<close> or \<open>E\<close>. Each step returns what it read and the input that is left.
\<close>

definition num_sign :: "string \<Rightarrow> bool \<times> string" where
  "num_sign s = (if startsWith s ''-'' then (True, tl s) else (False, s))"

definition num_int :: "string \<Rightarrow> string \<times> string" where
  "num_int s =
     (let ip = (if startsWith s ''0'' then ''0'' else takeWhile is_digit s)
      in (ip, drop (length ip) s))"

definition num_frac :: "string \<Rightarrow> bool \<times> string \<times> string" where
  "num_frac s =
     (if startsWith s ''.''
      then (let fp = takeWhile is_digit (tl s) in (True, fp, drop (length fp) (tl s)))
      else (False, [], s))"

definition num_exp :: "string \<Rightarrow> bool \<times> bool \<times> bool \<times> string" where
  "num_exp s =
     (if startsWith s ''e'' \<or> startsWith s ''E''
      then (let s4 = tl s;
                eneg = startsWith s4 ''-'';
                esign = (eneg \<or> startsWith s4 ''+'')
            in (True, eneg, esign, takeWhile is_digit (if esign then tl s4 else s4)))
      else (False, False, False, []))"

text \<open>The value of the token and the number of characters read.\<close>

definition lex_number :: "string \<Rightarrow> (rat \<times> nat) option" where
  "lex_number s =
     (case num_sign s of (neg, s1) \<Rightarrow>
      case num_int s1 of (ip, s2) \<Rightarrow>
      case num_frac s2 of (hasfrac, fp, s3) \<Rightarrow>
      case num_exp s3 of (hasexp, eneg, esign, ep) \<Rightarrow>
        if ip = [] \<or> (hasfrac \<and> fp = []) \<or> (hasexp \<and> ep = []) then None
        else
          (let m = of_int (digits_val (ip @ fp)) / 10 ^ length fp;
               e = nat (digits_val ep);
               v = (if eneg then m / 10 ^ e else m * 10 ^ e);
               n = (if neg then 1 else 0) + length ip + (if hasfrac then 1 + length fp else 0)
                   + (if hasexp then 1 + (if esign then 1 else 0) + length ep else 0)
           in Some (if neg then - v else v, n)))"

definition tcons :: "tok \<Rightarrow> tok list option \<Rightarrow> tok list option" where
  "tcons t r = map_option ((#) t) r"

text \<open>The tokens of a text; \<open>k\<close> counts the characters of the last token still to be skipped.\<close>

fun lex_go :: "nat \<Rightarrow> string \<Rightarrow> tok list option" where
  "lex_go (Suc k) [] = None"
| "lex_go (Suc k) (c # cs) = lex_go k cs"
| "lex_go 0 [] = Some []"
| "lex_go 0 (c # cs) =
     (if is_json_ws c then lex_go 0 cs
      else if c = CHR ''{'' then tcons TLBrace (lex_go 0 cs)
      else if c = CHR ''}'' then tcons TRBrace (lex_go 0 cs)
      else if c = CHR ''['' then tcons TLBrack (lex_go 0 cs)
      else if c = CHR '']'' then tcons TRBrack (lex_go 0 cs)
      else if c = CHR '':'' then tcons TColon (lex_go 0 cs)
      else if c = CHR '','' then tcons TComma (lex_go 0 cs)
      else if c = CHR 0x22 then
        (case lex_string cs of
           None \<Rightarrow> None
         | Some (s, n) \<Rightarrow> tcons (TStr s) (lex_go n cs))
      else if c = CHR ''-'' \<or> is_digit c then
        (case lex_number (c # cs) of
           None \<Rightarrow> None
         | Some (r, n) \<Rightarrow> tcons (TNum r) (lex_go (n - 1) cs))
      else if startsWith (c # cs) ''true'' then tcons TTrue (lex_go 3 cs)
      else if startsWith (c # cs) ''false'' then tcons TFalse (lex_go 4 cs)
      else if startsWith (c # cs) ''null'' then tcons TNull (lex_go 3 cs)
      else None)"

declare lex_go.simps [simp del]

text \<open>
  The parser runs over the tokens with a stack of the arrays and objects that are open.
  A member of an object is stored like an assignment, so a repeated key keeps its place
  and takes the last value, and index keys come first.
\<close>

datatype frame =
    InArr "json list"
  | InObj "(string \<times> json) list"
  | InObjKey "(string \<times> json) list" string

datatype pmode =
    MValue | MValueOrClose | MKeyOrClose | MKey | MColon string | MCommaOrClose | MDone json

fun attach :: "json \<Rightarrow> frame list \<Rightarrow> (pmode \<times> frame list) option" where
  "attach v [] = Some (MDone v, [])"
| "attach v (InArr es # st) = Some (MCommaOrClose, InArr (es @ [v]) # st)"
| "attach v (InObjKey ms k # st) = Some (MCommaOrClose, InObj (obj_set ms k v) # st)"
| "attach v (InObj ms # st) = None"

fun value_start :: "tok \<Rightarrow> frame list \<Rightarrow> (pmode \<times> frame list) option" where
  "value_start (TStr s) st = attach (JStr s) st"
| "value_start (TNum r) st = attach (JNum r) st"
| "value_start TTrue st = attach (JBool True) st"
| "value_start TFalse st = attach (JBool False) st"
| "value_start TNull st = attach JNull st"
| "value_start TLBrack st = Some (MValueOrClose, InArr [] # st)"
| "value_start TLBrace st = Some (MKeyOrClose, InObj [] # st)"
| "value_start t st = None"

fun close_arr :: "frame list \<Rightarrow> (pmode \<times> frame list) option" where
  "close_arr (InArr es # st) = attach (JArr es) st"
| "close_arr st = None"

fun close_obj :: "frame list \<Rightarrow> (pmode \<times> frame list) option" where
  "close_obj (InObj ms # st) = attach (JObj ms) st"
| "close_obj st = None"

fun pstep :: "pmode \<Rightarrow> frame list \<Rightarrow> tok \<Rightarrow> (pmode \<times> frame list) option" where
  "pstep MValue st t = value_start t st"
| "pstep MValueOrClose st t = (if t = TRBrack then close_arr st else value_start t st)"
| "pstep MKeyOrClose st t =
     (case t of TStr k \<Rightarrow> Some (MColon k, st) | TRBrace \<Rightarrow> close_obj st | _ \<Rightarrow> None)"
| "pstep MKey st t = (case t of TStr k \<Rightarrow> Some (MColon k, st) | _ \<Rightarrow> None)"
| "pstep (MColon k) st t =
     (case t of
        TColon \<Rightarrow> (case st of InObj ms # st' \<Rightarrow> Some (MValue, InObjKey ms k # st') | _ \<Rightarrow> None)
      | _ \<Rightarrow> None)"
| "pstep MCommaOrClose st t =
     (case st of
        InArr es # st' \<Rightarrow>
          (case t of TComma \<Rightarrow> Some (MValue, st) | TRBrack \<Rightarrow> close_arr st | _ \<Rightarrow> None)
      | InObj ms # st' \<Rightarrow>
          (case t of TComma \<Rightarrow> Some (MKey, st) | TRBrace \<Rightarrow> close_obj st | _ \<Rightarrow> None)
      | _ \<Rightarrow> None)"
| "pstep (MDone v) st t = None"

fun prun :: "pmode \<Rightarrow> frame list \<Rightarrow> tok list \<Rightarrow> json option" where
  "prun m st [] = (case m of MDone v \<Rightarrow> Some v | _ \<Rightarrow> None)"
| "prun m st (t # ts) =
     (case pstep m st t of None \<Rightarrow> None | Some (m', st') \<Rightarrow> prun m' st' ts)"

text \<open>\<open>JSON.parse\<close>: \<open>None\<close> is the exception it throws.\<close>

definition JSON_parse :: "string \<Rightarrow> json option" where
  "JSON_parse s = (case lex_go 0 s of None \<Rightarrow> None | Some ts \<Rightarrow> prun MValue [] ts)"

text \<open>
  Truthiness, the property read \<open>data.key\<close> on a value other than \<open>null\<close> (\<open>None\<close> is
  \<open>undefined\<close>), and \<open>a || b\<close>.
\<close>

fun truthy :: "json \<Rightarrow> bool" where
  "truthy JNull = False"
| "truthy (JBool b) = b"
| "truthy (JNum r) = (r \<noteq> 0)"
| "truthy (JStr s) = (s \<noteq> [])"
| "truthy (JArr vs) = True"
| "truthy (JObj kvs) = True"

fun get_prop :: "json \<Rightarrow> string \<Rightarrow> json option" where
  "get_prop (JObj kvs) k = obj_get kvs k"
| "get_prop v k = None"

fun or_else :: "json option \<Rightarrow> json \<Rightarrow> json" where
  "or_else None d = d"
| "or_else (Some v) d = (if truthy v then v else d)"

section \<open>JSON import\<close>

text \<open>
  \<open>parseJson\<close>; \<open>fresh\<close> is the identifier that \<open>generateIFID\<close> returns when it is
  called. Reading a property of \<open>null\<close> throws, and the exception is caught.
\<close>

definition parseJson :: "string \<Rightarrow> string \<Rightarrow> json option" where
  "parseJson fresh content =
     (case JSON_parse content of
        None \<Rightarrow> None
      | Some data \<Rightarrow>
          if data = JNull then None
          else (case get_prop data ''title'' of
              None \<Rightarrow> None
            | Some title \<Rightarrow>
                (case get_prop data ''passages'' of
                   None \<Rightarrow> None
                 | Some passages \<Rightarrow>
                     if truthy title \<and> truthy passages then
                       Some (JObj
                         [(''title'', title),
                          (''startPassage'', or_else (get_prop data ''startPassage'') (JStr ''Start'')),
                          (''passages'', passages),
                          (''ifid'', or_else (get_prop data ''ifid'') (JStr fresh)),
                          (''format'', or_else (get_prop data ''format'') (JStr [])),
                          (''formatVersion'', or_else (get_prop data ''formatVersion'') (JStr [])),
                          (''zoom'', or_else (get_prop data ''zoom'') (JNum 1)),
                          (''tags'', or_else (get_prop data ''tags'') (JStr [])),
                          (''stylesheet'', or_else (get_prop data ''stylesheet'') (JStr [])),
                          (''javascript'', or_else (get_prop data ''javascript'') (JStr [])),
                          (''tagColors'', or_else (get_prop data ''tagColors'') (JObj []))])
                     else None)))"

section \<open>Line format import\<close>

text \<open>
  \<open>parseInt(s)\<close> with no radix: leading white space, a sign, then hexadecimal digits
  after \<open>0x\<close> or decimal digits otherwise, up to the first other character. \<open>None\<close> is
  \<open>NaN\<close>; \<open>parseInt(undefined)\<close> is \<open>NaN\<close> as well.
\<close>

definition is_hex :: "char \<Rightarrow> bool" where
  "is_hex c = (hex_val c \<noteq> None)"

definition hex_digits_val :: "string \<Rightarrow> int" where
  "hex_digits_val ds = foldl (\<lambda>n c. 16 * n + (case hex_val c of Some d \<Rightarrow> d | None \<Rightarrow> 0)) 0 ds"

definition parseInt :: "string \<Rightarrow> int option" where
  "parseInt s =
     (let s1 = dropWhile is_ws s;
          neg = startsWith s1 ''-'';
          s2 = (if neg \<or> startsWith s1 ''+'' then tl s1 else s1);
          hex = (startsWith s2 ''0x'' \<or> startsWith s2 ''0X'');
          ds = (if hex then takeWhile is_hex (drop 2 s2) else takeWhile is_digit s2);
          v = (if hex then hex_digits_val ds else digits_val ds)
      in if ds = [] then None else Some (if neg then - v else v))"

text \<open>\<open>n || d\<close> for a number \<open>n\<close> that is an integer or \<open>NaN\<close>.\<close>

fun num_or :: "int option \<Rightarrow> int \<Rightarrow> int" where
  "num_or None d = d"
| "num_or (Some v) d = (if v = 0 then d else v)"

text \<open>\<open>parseInt(parts[i]) || d\<close>, where \<open>parts[i]\<close> is undefined beyond the end of the list.\<close>

definition int_or :: "string list \<Rightarrow> nat \<Rightarrow> int \<Rightarrow> int" where
  "int_or parts i d = num_or (if i < length parts then parseInt (parts ! i) else None) d"

text \<open>
  The header expression \<open>/^::\s*(.+?)\s*(?:\[([^\]]*)\])?\s*(\{.*\})?\s*$/\<close>, and what
  the loop computes from a match: the trimmed name, the tags and the metadata text.
\<close>

definition header_re :: "item list" where
  "header_re = [Bol, Chr CHR '':'', Chr CHR '':'', Greedy 0 Space,
     Open 1, Lazy 1 Dot, Close 1, Greedy 0 Space,
     Opt [Chr CHR ''['', Open 2, Greedy 0 (NoneOf '']''), Close 2, Chr CHR '']''],
     Greedy 0 Space,
     Opt [Open 3, Chr CHR ''{'', Greedy 0 Dot, Chr CHR ''}'', Close 3],
     Greedy 0 Space, Eol]"

definition header_of :: "string \<Rightarrow> (string \<times> string list \<times> string option) option" where
  "header_of line =
     (case exec line header_re of
        None \<Rightarrow> None
      | Some cp \<Rightarrow>
          Some (trim (grp cp 1),
                (case group cp 2 of
                   None \<Rightarrow> []
                 | Some g \<Rightarrow> if g = [] then [] else filter (\<lambda>t. t \<noteq> []) (split g '' '')),
                group cp 3))"

text \<open>
  The coordinates of a header: the grid position of the passage index and the size 100,
  replaced from the metadata inside the \<open>try\<close> block. A truthy \<open>position\<close> or \<open>size\<close>
  that is not a string has no \<open>split\<close>: the call throws, and the block is left with what
  has been assigned so far.
\<close>

definition header_coords :: "string option \<Rightarrow> nat \<Rightarrow> int \<times> int \<times> int \<times> int" where
  "header_coords metadataStr passageIndex =
     (let x = 100 + int (passageIndex mod 5) * 200;
          y = 100 + int (passageIndex div 5) * 150;
          width = 100;
          height = 100
      in case metadataStr of
           None \<Rightarrow> (x, y, width, height)
         | Some m \<Rightarrow>
             (case JSON_parse m of
                None \<Rightarrow> (x, y, width, height)
              | Some metadata \<Rightarrow>
                  (case (case get_prop metadata ''position'' of
                           None \<Rightarrow> Some (x, y)
                         | Some pos \<Rightarrow>
                             if \<not> truthy pos then Some (x, y)
                             else (case pos of
                                     JStr p \<Rightarrow> Some (int_or (split p '','') 0 x, int_or (split p '','') 1 y)
                                   | _ \<Rightarrow> None)) of
                     None \<Rightarrow> (x, y, width, height)
                   | Some (x', y') \<Rightarrow>
                       (case get_prop metadata ''size'' of
                          None \<Rightarrow> (x', y', width, height)
                        | Some sz \<Rightarrow>
                            if \<not> truthy sz then (x', y', width, height)
                            else (case sz of
                                    JStr s \<Rightarrow> (x', y', int_or (split s '','') 0 width,
                                               int_or (split s '','') 1 height)
                                  | _ \<Rightarrow> (x', y', width, height))))))"

record twee_passage =
  tp_name :: string
  tp_tags :: "string list"
  tp_x :: int
  tp_y :: int
  tp_width :: int
  tp_height :: int
  tp_content :: string

datatype current =
    NoCurrent
  | TitleBlock
  | StoryDataBlock string
  | StylesheetBlock
  | ScriptBlock
  | PassageBlock twee_passage

record twee_state =
  t_passages :: "json obj"
  t_currentPassage :: current
  t_title :: string
  t_startPassage :: json
  t_ifid :: json
  t_format :: json
  t_formatVersion :: json
  t_zoom :: json
  t_tagColors :: json
  t_stylesheet :: string
  t_javascript :: string
  t_passageIndex :: nat

text \<open>\<open>ob[k] = v\<close> for any key: the key \<open>__proto__\<close> sets the prototype and adds no property.\<close>

definition js_assign :: "'v obj \<Rightarrow> string \<Rightarrow> 'v \<Rightarrow> 'v obj" where
  "js_assign ob k v = (if k = ''__proto__'' then ob else obj_set ob k v)"

definition twee_passage_json :: "twee_passage \<Rightarrow> json" where
  "twee_passage_json p =
     JObj [(''name'', JStr (tp_name p)),
           (''content'', JStr (trim (tp_content p))),
           (''tags'', JArr (map JStr (tp_tags p))),
           (''x'', JNum (of_int (tp_x p))),
           (''y'', JNum (of_int (tp_y p))),
           (''width'', JNum (of_int (tp_width p))),
           (''height'', JNum (of_int (tp_height p)))]"

definition saveCurrentPassage :: "twee_state \<Rightarrow> twee_state" where
  "saveCurrentPassage st =
     (case t_currentPassage st of
        PassageBlock p \<Rightarrow>
          st\<lparr>t_passages := js_assign (t_passages st) (tp_name p) (twee_passage_json p)\<rparr>
      | _ \<Rightarrow> st)"

text \<open>The body of the loop over the lines.\<close>

definition twee_line :: "twee_state \<Rightarrow> string \<Rightarrow> twee_state" where
  "twee_line st0 line =
     (case header_of line of
        Some (passageName, tags, metadataStr) \<Rightarrow>
          (let st = saveCurrentPassage st0;
               (x, y, width, height) = header_coords metadataStr (t_passageIndex st)
           in if passageName = ''StoryTitle'' then st\<lparr>t_currentPassage := TitleBlock\<rparr>
              else if passageName = ''StoryData'' then st\<lparr>t_currentPassage := StoryDataBlock []\<rparr>
              else if ''stylesheet'' \<in> set tags then st\<lparr>t_currentPassage := StylesheetBlock\<rparr>
              else if ''script'' \<in> set tags then st\<lparr>t_currentPassage := ScriptBlock\<rparr>
              else st\<lparr>t_currentPassage := PassageBlock
                        \<lparr>tp_name = passageName, tp_tags = tags, tp_x = x, tp_y = y,
                         tp_width = width, tp_height = height, tp_content = []\<rparr>,
                      t_passageIndex := t_passageIndex st + 1\<rparr>)
      | None \<Rightarrow>
          (case t_currentPassage st0 of
             NoCurrent \<Rightarrow> st0
           | TitleBlock \<Rightarrow> if trim line = [] then st0 else st0\<lparr>t_title := trim line\<rparr>
           | StoryDataBlock jsonContent \<Rightarrow>
               (let jsonContent' = jsonContent @ line @ [CHR 0x0A];
                    st = st0\<lparr>t_currentPassage := StoryDataBlock jsonContent'\<rparr>
                in case JSON_parse jsonContent' of
                     None \<Rightarrow> st
                   | Some data \<Rightarrow>
                       if data = JNull then st
                       else st\<lparr>t_ifid := or_else (get_prop data ''ifid'') (t_ifid st),
                               t_format := or_else (get_prop data ''format'') (t_format st),
                               t_formatVersion :=
                                 or_else (get_prop data ''format-version'') (t_formatVersion st),
                               t_startPassage := or_else (get_prop data ''start'') (t_startPassage st),
                               t_zoom := or_else (get_prop data ''zoom'') (t_zoom st),
                               t_tagColors := or_else (get_prop data ''tag-colors'') (t_tagColors st)\<rparr>)
           | StylesheetBlock \<Rightarrow> st0\<lparr>t_stylesheet := t_stylesheet st0 @ line @ [CHR 0x0A]\<rparr>
           | ScriptBlock \<Rightarrow> st0\<lparr>t_javascript := t_javascript st0 @ line @ [CHR 0x0A]\<rparr>
           | PassageBlock p \<Rightarrow>
               st0\<lparr>t_currentPassage := PassageBlock
                 (p\<lparr>tp_content := tp_content p @ (if tp_content p = [] then [] else [CHR 0x0A]) @ line\<rparr>)\<rparr>))"

definition twee_init :: "string \<Rightarrow> twee_state" where
  "twee_init fresh =
     \<lparr>t_passages = [], t_currentPassage = NoCurrent, t_title = ''Imported Story'',
      t_startPassage = JStr ''Start'', t_ifid = JStr fresh, t_format = JStr [],
      t_formatVersion = JStr [], t_zoom = JNum 1, t_tagColors = JObj [],
      t_stylesheet = [], t_javascript = [], t_passageIndex = 0\<rparr>"

text \<open>\<open>parseTwee\<close>; \<open>fresh\<close> is the identifier that \<open>generateIFID\<close> returns.\<close>

definition parseTwee :: "string \<Rightarrow> string \<Rightarrow> json option" where
  "parseTwee fresh content =
     (let lines = split content [CHR 0x0A];
          st = saveCurrentPassage (foldl twee_line (twee_init fresh) lines)
      in if length (obj_keys (t_passages st)) = 0 then None
         else Some (JObj
           [(''title'', JStr (t_title st)),
            (''startPassage'', t_startPassage st),
            (''passages'', JObj (t_passages st)),
            (''ifid'', t_ifid st),
            (''format'', t_format st),
            (''formatVersion'', t_formatVersion st),
            (''zoom'', t_zoom st),
            (''tags'', JStr []),
            (''stylesheet'', JStr (trim (t_stylesheet st))),
            (''javascript'', JStr (trim (t_javascript st))),
            (''tagColors'', t_tagColors st)]))"










section \<open>Format detection\<close>

text \<open>\<open>toLowerCase\<close> on the code units below 256: the ASCII and the Latin-1 capital letters.\<close>

definition lower_char :: "char \<Rightarrow> char" where
  "lower_char c =
     (let n = (of_char c :: int)
      in if (65 \<le> n \<and> n \<le> 90) \<or> (192 \<le> n \<and> n \<le> 222 \<and> n \<noteq> 215)
         then char_of (n + 32) else c)"

definition toLowerCase :: "string \<Rightarrow> string" where
  "toLowerCase s = map lower_char s"

text \<open>
  \<open>parseFile\<close>. The archive parser \<open>parseTwine\<close> works on the document tree that the
  host's HTML parser builds from the text and is a parameter here; \<open>fresh\<close> is the
  identifier that \<open>generateIFID\<close> returns.
\<close>

definition parseFile ::
  "(string \<Rightarrow> json option) \<Rightarrow> string \<Rightarrow> string \<Rightarrow> string \<Rightarrow> json option" where
  "parseFile parseTwine fresh content filename =
     (let ext = last (split (toLowerCase filename) ''.'')
      in if ext = ''json'' then parseJson fresh content
         else if ext = ''twee'' \<or> ext = ''tw'' then parseTwee fresh content
         else if ext = ''html'' \<or> ext = ''htm'' then
           (case parseTwine content of Some twineResult \<Rightarrow> Some twineResult | None \<Rightarrow> None)
         else if startsWith (trim content) ''{'' then parseJson fresh content
         else if includes_str content ''<tw-storydata'' then parseTwine content
         else if includes_str content ''::'' then parseTwee fresh content
         else None)"

text \<open>The archive parser on a text without a story container: no result.\<close>

definition archive_absent :: "string \<Rightarrow> json option" where
  "archive_absent html = None"

definition twee_small_example :: string where
  "twee_small_example = join ['':: Start'', ''Hello''] [CHR 0x0A]"

section \<open>\<open>JSON.stringify\<close> and numbers as text\<close>

text \<open>
  The decimal notation of a number: the digits of an integer; for a number with a
  fraction, the digits of the fraction follow the point, up to twenty of them. The
  host's exponent notation for very large and very small numbers is outside the model.
\<close>

fun show_pos :: "int \<Rightarrow> string" where
  "show_pos n =
     (if n < 10 then [char_of (48 + n)] else show_pos (n div 10) @ [char_of (48 + n mod 10)])"

declare show_pos.simps [simp del]


fun frac_digits :: "nat \<Rightarrow> rat \<Rightarrow> string" where
  "frac_digits 0 f = []"
| "frac_digits (Suc k) f =
     (if f = 0 then []
      else char_of (48 + \<lfloor>10 * f\<rfloor>) # frac_digits k (10 * f - of_int \<lfloor>10 * f\<rfloor>))"

definition num_to_string :: "rat \<Rightarrow> string" where
  "num_to_string r =
     (let a = \<bar>r\<bar>; f = a - of_int \<lfloor>a\<rfloor>
      in (if r < 0 then ''-'' else []) @ show_pos \<lfloor>a\<rfloor>
         @ (if f = 0 then [] else ''.'' @ frac_digits 20 f))"

text \<open>The quoted form of a string in JSON text.\<close>

definition hex_digit :: "int \<Rightarrow> char" where
  "hex_digit d = (if d < 10 then char_of (48 + d) else char_of (87 + d))"

definition escape_char :: "char \<Rightarrow> string" where
  "escape_char c =
     (if c = CHR 0x22 then [CHR 0x5C, CHR 0x22]
      else if c = CHR 0x5C then [CHR 0x5C, CHR 0x5C]
      else if c = CHR 0x08 then [CHR 0x5C, CHR ''b'']
      else if c = CHR 0x0C then [CHR 0x5C, CHR ''f'']
      else if c = CHR 0x0A then [CHR 0x5C, CHR ''n'']
      else if c = CHR 0x0D then [CHR 0x5C, CHR ''r'']
      else if c = CHR 0x09 then [CHR 0x5C, CHR ''t'']
      else if (of_char c :: int) < 32
        then [CHR 0x5C, CHR ''u'', CHR ''0'', CHR ''0'',
              hex_digit (of_char c div 16), hex_digit (of_char c mod 16)]
      else [c])"

definition quote :: "string \<Rightarrow> string" where
  "quote s = [CHR 0x22] @ concat (map escape_char s) @ [CHR 0x22]"

text \<open>\<open>JSON.stringify(v)\<close>.\<close>

fun JSON_stringify :: "json \<Rightarrow> string" where
  "JSON_stringify JNull = ''null''"
| "JSON_stringify (JBool b) = (if b then ''true'' else ''false'')"
| "JSON_stringify (JNum r) = num_to_string r"
| "JSON_stringify (JStr s) = quote s"
| "JSON_stringify (JArr vs) = ''['' @ join (map JSON_stringify vs) '','' @ '']''"
| "JSON_stringify (JObj kvs) =
     ''{'' @ join (map (\<lambda>(k, v). quote k @ '':'' @ JSON_stringify v) kvs) '','' @ ''}''"

text \<open>\<open>JSON.stringify(v, null, 2)\<close>, for a value at the indentation \<open>ind\<close>.\<close>

fun stringify_pretty :: "nat \<Rightarrow> json \<Rightarrow> string" where
  "stringify_pretty ind JNull = ''null''"
| "stringify_pretty ind (JBool b) = (if b then ''true'' else ''false'')"
| "stringify_pretty ind (JNum r) = num_to_string r"
| "stringify_pretty ind (JStr s) = quote s"
| "stringify_pretty ind (JArr vs) =
     (if vs = [] then ''[]''
      else ''['' @ [CHR 0x0A]
        @ join (map (\<lambda>v. replicate (ind + 2) CHR '' '' @ stringify_pretty (ind + 2) v) vs)
            ('','' @ [CHR 0x0A])
        @ [CHR 0x0A] @ replicate ind CHR '' '' @ '']'')"
| "stringify_pretty ind (JObj kvs) =
     (if kvs = [] then ''{}''
      else ''{'' @ [CHR 0x0A]
        @ join (map (\<lambda>(k, v). replicate (ind + 2) CHR '' '' @ quote k @ '': ''
                       @ stringify_pretty (ind + 2) v) kvs)
            ('','' @ [CHR 0x0A])
        @ [CHR 0x0A] @ replicate ind CHR '' '' @ ''}'')"

section \<open>The story as a value\<close>

definition passage_json :: "passage \<Rightarrow> json" where
  "passage_json p =
     JObj [(''name'', JStr (p_name p)),
           (''content'', JStr (p_content p)),
           (''tags'', JArr (map JStr (p_tags p))),
           (''x'', JNum (p_x p)),
           (''y'', JNum (p_y p)),
           (''width'', JNum (of_int (p_width p))),
           (''height'', JNum (of_int (p_height p)))]"

definition passages_json :: "passage obj \<Rightarrow> json" where
  "passages_json ps = JObj (map (\<lambda>(k, p). (k, passage_json p)) ps)"

definition story_json :: "story \<Rightarrow> json" where
  "story_json s =
     JObj [(''title'', JStr (s_title s)),
           (''startPassage'', JStr (s_startPassage s)),
           (''passages'', passages_json (s_passages s)),
           (''ifid'', JStr (s_ifid s)),
           (''format'', JStr (s_format s)),
           (''formatVersion'', JStr (s_formatVersion s)),
           (''zoom'', JNum (s_zoom s)),
           (''tags'', JStr (s_tags s)),
           (''stylesheet'', JStr (s_stylesheet s)),
           (''javascript'', JStr (s_javascript s)),
           (''tagColors'', JObj (map (\<lambda>(k, c). (k, JStr c)) (s_tagColors s)))]"

section \<open>JSON export\<close>

text \<open>The text that \<open>exportAsJson\<close> hands to the download.\<close>

definition exportAsJson :: "story \<Rightarrow> string" where
  "exportAsJson story = stringify_pretty 0 (story_json story)"

section \<open>Line format export\<close>


text \<open>\<open>s || d\<close> for a string and \<open>n || d\<close> for a number.\<close>

definition str_or :: "string \<Rightarrow> string \<Rightarrow> string" where
  "str_or s d = (if s = [] then d else s)"






section \<open>The playable document\<close>

text \<open>
  The fixed text of the template of \<open>generatePlayableHtml\<close>, cut at the four places
  where text of the story is inserted; each part is given by its lines.
\<close>

definition doc_head :: string where
  \<open>doc_head = join
    [''<!DOCTYPE html>'',
     ''<html lang="en">'',
     ''<head>'',
     ''<meta charset="UTF-8">'',
     ''<meta name="viewport" content="width=device-width, initial-scale=1.0">'',
     ''<title>'']
    [CHR 0x0A]\<close>

definition doc_style :: string where
  \<open>doc_style = join
    [''</title>'',
     ''<style>'',
     ''* { margin: 0; padding: 0; box-sizing: border-box; }'',
     ''body {'',
     ''    font-family: Georgia, 'Times New Roman', serif;'',
     ''    background: linear-gradient(135deg, #1e1e3f 0%, #151529 100%);'',
     ''    color: #e8e8f0;'',
     ''    min-height: 100vh;'',
     ''    display: flex;'',
     ''    align-items: center;'',
     ''    justify-content: center;'',
     ''    padding: 2rem;'',
     ''}'',
     ''#story {'',
     ''    max-width: 650px;'',
     ''    background: rgba(45, 45, 90, 0.5);'',
     ''    backdrop-filter: blur(10px);'',
     ''    padding: 3rem;'',
     ''    border-radius: 16px;'',
     ''    border: 1px solid rgba(139, 92, 246, 0.3);'',
     ''    line-height: 1.9;'',
     ''    font-size: 1.15rem;'',
     ''    box-shadow: 0 20px 60px rgba(0, 0, 0, 0.4);'',
     ''}'',
     ''#story p { margin-bottom: 1.25rem; }'',
     ''.link {'',
     ''    color: #a78bfa;'',
     ''    cursor: pointer;'',
     ''    text-decoration: underline;'',
     ''    text-underline-offset: 3px;'',
     ''    transition: color 0.15s;'',
     ''}'',
     ''.link:hover { color: #c4b5fd; }'',
     ''h1 {'',
     ''    font-size: 1.75rem;'',
     ''    margin-bottom: 2rem;'',
     ''    color: #a78bfa;'',
     ''    font-weight: normal;'',
     ''}'',
     ''</style>'',
     ''</head>'',
     ''<body>'',
     ''<div id="story"></div>'',
     ''<script>'',
     ''const passages = '']
    [CHR 0x0A]\<close>

definition doc_script_start :: string where
  \<open>doc_script_start = join
    ['';'',
     ''const startPassage = "'']
    [CHR 0x0A]\<close>

definition doc_script_body :: string where
  \<open>doc_script_body = join
    [''";'',
     [],
     ''function showPassage(name) {'',
     ''    const p = passages[name];'',
     ''    if (!p) {'',
     ''        document.getElementById('story').innerHTML = '<p>Passage not found: ' + name + '</p>';'',
     ''        return;'',
     ''    }'',
     [],
     ''    let content = p.content || '' @ [CHR 0x27, CHR 0x27] @ '';'',
     [],
     ''    // Handle [[Display Text->Target]] syntax'',
     ''    content = content.replace(/'' @ [CHR 0x5C] @ ''['' @ [CHR 0x5C] @ ''[([^''
       @ [CHR 0x5C] @ '']]+)->([^'' @ [CHR 0x5C] @ '']]+)'' @ [CHR 0x5C] @ '']'' @ [CHR 0x5C]
       @ '']/g, (match, display, target) => {'',
     ''        return '<span class="link" onclick="showPassage(''
       @ [CHR 0x5C, CHR 0x27, CHR 0x27] @ '' + target.trim().replace(/'/g, "''
       @ [CHR 0x5C, CHR 0x5C, CHR 0x27] @ ''") + '' @ [CHR 0x27, CHR 0x5C, CHR 0x27]
       @ '')">' + display.trim() + '</span>';'',
     ''    });'',
     [],
     ''    // Handle [[Display Text|Target]] syntax'',
     ''    content = content.replace(/'' @ [CHR 0x5C] @ ''['' @ [CHR 0x5C] @ ''[([^''
       @ [CHR 0x5C] @ '']|]+)'' @ [CHR 0x5C] @ ''|([^'' @ [CHR 0x5C] @ '']]+)'' @ [CHR 0x5C]
       @ '']'' @ [CHR 0x5C] @ '']/g, (match, display, target) => {'',
     ''        return '<span class="link" onclick="showPassage(''
       @ [CHR 0x5C, CHR 0x27, CHR 0x27] @ '' + target.trim().replace(/'/g, "''
       @ [CHR 0x5C, CHR 0x5C, CHR 0x27] @ ''") + '' @ [CHR 0x27, CHR 0x5C, CHR 0x27]
       @ '')">' + display.trim() + '</span>';'',
     ''    });'',
     [],
     ''    // Handle [[Target]] syntax (simple links)'',
     ''    content = content.replace(/'' @ [CHR 0x5C] @ ''['' @ [CHR 0x5C] @ ''[([^''
       @ [CHR 0x5C] @ '']|>]+)'' @ [CHR 0x5C] @ '']'' @ [CHR 0x5C]
       @ '']/g, (match, target) => {'',
     ''        return '<span class="link" onclick="showPassage(''
       @ [CHR 0x5C, CHR 0x27, CHR 0x27] @ '' + target.trim().replace(/'/g, "''
       @ [CHR 0x5C, CHR 0x5C, CHR 0x27] @ ''") + '' @ [CHR 0x27, CHR 0x5C, CHR 0x27]
       @ '')">' + target.trim() + '</span>';'',
     ''    });'',
     [],
     ''    content = content.split('' @ [CHR 0x27, CHR 0x5C] @ ''n'' @ [CHR 0x5C]
       @ ''n').map(p => '<p>' + p.replace(/'' @ [CHR 0x5C] @ ''n/g, '<br>') + '</p>').join(''
       @ [CHR 0x27, CHR 0x27] @ '');'',
     ''    document.getElementById('story').innerHTML = '<h1>'']
    [CHR 0x0A]\<close>

definition doc_tail :: string where
  \<open>doc_tail = join
    [''</h1>' + content;'',
     ''}'',
     [],
     ''showPassage(startPassage);'',
     ''</script>'',
     ''</body>'',
     ''</html>'']
    [CHR 0x0A]\<close>
text \<open>
  \<open>esc\<close> writes the string as the text of an element and reads the markup back: the
  host escapes \<open>&\<close>, \<open><\<close>, \<open>>\<close> and the no-break space.
\<close>

definition esc_char :: "char \<Rightarrow> string" where
  "esc_char c =
     (if c = CHR ''&'' then ''&amp;''
      else if c = CHR ''<'' then ''&lt;''
      else if c = CHR ''>'' then ''&gt;''
      else if c = CHR 0xA0 then ''&nbsp;''
      else [c])"

definition esc :: "string \<Rightarrow> string" where
  "esc str = concat (map esc_char str)"

text \<open>The expression \<open>/<\/script>/gi\<close>.\<close>

definition script_close_re :: "item list" where
  "script_close_re = [Chr CHR ''<'', Chr CHR ''/'', One (OneOf ''sS''), One (OneOf ''cC''),
     One (OneOf ''rR''), One (OneOf ''iI''), One (OneOf ''pP''), One (OneOf ''tT''),
     Chr CHR ''>'']"

definition generatePlayableHtml :: "story \<Rightarrow> string" where
  "generatePlayableHtml story =
     (let passages = s_passages story;
          passagesJson = replace_all (JSON_stringify (passages_json passages)) script_close_re
            (\<lambda>m cp. ''<'' @ [CHR 0x5C] @ ''/script>'')
      in doc_head @ esc (s_title story) @ doc_style @ passagesJson @ doc_script_start
         @ str_or (s_startPassage story) ''Start'' @ doc_script_body @ esc (s_title story)
         @ doc_tail)"

text \<open>
  The runtime of the document. Its three expressions are
  \<open>/\[\[([^\]]+)->([^\]]+)\]\]/g\<close>, \<open>/\[\[([^\]|]+)\|([^\]]+)\]\]/g\<close> and
  \<open>/\[\[([^\]|>]+)\]\]/g\<close>; \<open>span_link\<close> is the markup that their functions return.
\<close>

definition play_arrow_re :: "item list" where
  "play_arrow_re = [Chr CHR ''['', Chr CHR ''['', Open 1, Greedy 1 (NoneOf '']''), Close 1,
     Chr CHR ''-'', Chr CHR ''>'', Open 2, Greedy 1 (NoneOf '']''), Close 2,
     Chr CHR '']'', Chr CHR '']'']"

definition play_bar_re :: "item list" where
  "play_bar_re = [Chr CHR ''['', Chr CHR ''['', Open 1, Greedy 1 (NoneOf '']|''), Close 1,
     Chr CHR ''|'', Open 2, Greedy 1 (NoneOf '']''), Close 2, Chr CHR '']'', Chr CHR '']'']"

definition play_bare_re :: "item list" where
  "play_bare_re = [Chr CHR ''['', Chr CHR ''['', Open 1, Greedy 1 (NoneOf '']|>''), Close 1,
     Chr CHR '']'', Chr CHR '']'']"

definition span_link :: "string \<Rightarrow> string \<Rightarrow> string" where
  \<open>span_link target display =
     ''<span class="link" onclick="showPassage('' @ [CHR 0x27]
     @ concat (map (\<lambda>c. if c = CHR 0x27 then [CHR 0x5C, CHR 0x27] else [c]) (trim target))
     @ [CHR 0x27] @ '')">'' @ trim display @ ''</span>''\<close>

text \<open>\<open>content.split('\n\n').map(p => '<p>' + p.replace(/\n/g, '<br>') + '</p>').join('')\<close>.\<close>

definition paragraphs :: "string \<Rightarrow> string" where
  "paragraphs content =
     concat (map (\<lambda>p. ''<p>'' @ concat (map (\<lambda>c. if c = CHR 0x0A then ''<br>'' else [c]) p)
                       @ ''</p>'')
               (split content [CHR 0x0A, CHR 0x0A]))"

text \<open>
  \<open>showPassage\<close>: the markup that the runtime assigns to the story element, from the
  passage data of the document, the heading text of its script and a passage name. A
  name that is no own key but an inherited property gives an object without content.
\<close>

definition showPassage :: "passage obj \<Rightarrow> string \<Rightarrow> string \<Rightarrow> string" where
  "showPassage passages heading name =
     (if \<not> has_prop passages name then ''<p>Passage not found: '' @ name @ ''</p>''
      else
        (let content0 = (case obj_get passages name of Some p \<Rightarrow> p_content p | None \<Rightarrow> []);
             content1 = replace_all content0 play_arrow_re
               (\<lambda>m cp. span_link (grp cp 2) (grp cp 1));
             content2 = replace_all content1 play_bar_re
               (\<lambda>m cp. span_link (grp cp 2) (grp cp 1));
             content3 = replace_all content2 play_bare_re
               (\<lambda>m cp. span_link (grp cp 1) (grp cp 1))
         in ''<h1>'' @ heading @ ''</h1>'' @ paragraphs content3))"

text \<open>
  What the generated document shows for a passage: the passage data is the story's, and
  the heading of the script is the escaped title (for a title without quotes, backslashes
  and line breaks, which the script's string literal takes as they are).
\<close>

definition played_markup :: "story \<Rightarrow> string \<Rightarrow> string" where
  "played_markup story name = showPassage (s_passages story) (esc (s_title story)) name"

section \<open>The player of the editor\<close>

text \<open>\<open>StoryPlayer.play\<close>: the markup assigned to the content element.\<close>

definition play_link :: "string \<Rightarrow> string" where
  \<open>play_link inner =
     (let parts = (if includes_str inner ''-&gt;'' then map trim (split inner ''-&gt;'')
                   else if includes_str inner ''|'' then map trim (split inner ''|'')
                   else [trim inner, trim inner]);
          display = parts ! 0;
          target = parts ! 1
      in ''<span class="story-link" data-target="''
         @ concat (map (\<lambda>c. if c = CHR 0x22 then ''&quot;'' else [c]) target)
         @ ''">'' @ display @ ''</span>'')\<close>

definition play :: "story \<Rightarrow> string \<Rightarrow> string" where
  "play story passageName =
     (if \<not> has_prop (s_passages story) passageName
      then ''<p>Passage not found: '' @ esc passageName @ ''</p>''
      else
        (let content0 = esc (case obj_get (s_passages story) passageName of
                               Some p \<Rightarrow> p_content p | None \<Rightarrow> []);
             content1 = replace_all content0 link_re (\<lambda>m cp. play_link (grp cp 1))
         in ''<h1>'' @ esc (s_title story) @ ''</h1>'' @ paragraphs content1))"

definition markup_story_example :: story where
  "markup_story_example = mk_story ''Start''
     [mk_passage ''Start'' ''<img src=x onerror=alert(1)> [[Go on->Cave]]'',
      mk_passage ''Cave'' ''Dark.'']"

section \<open>Well-formed values\<close>

text \<open>
  An association list is an object of the host language when defining its properties one
  after the other puts each at the end: the keys are distinct and the index keys come
  first, in ascending order.
\<close>

fun built :: "'v obj \<Rightarrow> 'v obj \<Rightarrow> bool" where
  "built acc [] = True"
| "built acc (kv # kvs) = (obj_set acc (fst kv) (snd kv) = acc @ [kv] \<and> built (acc @ [kv]) kvs)"

definition is_object :: "'v obj \<Rightarrow> bool" where
  "is_object kvs = built [] kvs"

text \<open>
  A number keeps its value through its decimal notation when it has at most twenty
  digits after the point.
\<close>

definition decimal20 :: "rat \<Rightarrow> bool" where
  "decimal20 r = (of_int \<lfloor>\<bar>r\<bar> * 10 ^ 20\<rfloor> = \<bar>r\<bar> * 10 ^ 20)"

text \<open>A value all of whose objects and numbers are of this kind.\<close>

fun wf_json :: "json \<Rightarrow> bool" where
  "wf_json JNull = True"
| "wf_json (JBool b) = True"
| "wf_json (JNum r) = decimal20 r"
| "wf_json (JStr s) = True"
| "wf_json (JArr vs) = list_all wf_json vs"
| "wf_json (JObj kvs) = (is_object kvs \<and> list_all (\<lambda>kv. wf_json (snd kv)) kvs)"

text \<open>The tokens of a value.\<close>

fun sep_toks :: "tok list list \<Rightarrow> tok list" where
  "sep_toks [] = []"
| "sep_toks [t] = t"
| "sep_toks (t # u # us) = t @ TComma # sep_toks (u # us)"

fun toks :: "json \<Rightarrow> tok list" where
  "toks JNull = [TNull]"
| "toks (JBool b) = [if b then TTrue else TFalse]"
| "toks (JNum r) = [TNum r]"
| "toks (JStr s) = [TStr s]"
| "toks (JArr vs) = TLBrack # sep_toks (map toks vs) @ [TRBrack]"
| "toks (JObj kvs) =
     TLBrace # sep_toks (map (\<lambda>kv. TStr (fst kv) # TColon # toks (snd kv)) kvs) @ [TRBrace]"

text \<open>
  The invariants of a story of the data model: a title, an identifier, valid passage
  names, a start passage among the passages, a zoom factor above zero; the passages and
  the tag colours are objects, and the numbers are decimal numbers.
\<close>

definition story_inv :: "story \<Rightarrow> bool" where
  "story_inv s =
     (s_title s \<noteq> [] \<and> s_ifid s \<noteq> []
      \<and> s_startPassage s \<in> set (obj_keys (s_passages s))
      \<and> list_all (\<lambda>k. validatePassageName k = None) (obj_keys (s_passages s))
      \<and> 0 < s_zoom s \<and> decimal20 (s_zoom s)
      \<and> is_object (s_passages s) \<and> is_object (s_tagColors s)
      \<and> list_all (\<lambda>p. decimal20 (p_x p) \<and> decimal20 (p_y p)) (obj_values (s_passages s)))"

text \<open>A text before which a number token ends.\<close>

definition ends_number :: "string \<Rightarrow> bool" where
  "ends_number rest =
     (case rest of
        [] \<Rightarrow> True
      | c # cs \<Rightarrow> \<not> (is_digit c \<or> c = CHR ''.'' \<or> c = CHR ''e'' \<or> c = CHR ''E''))"

text \<open>Tokens put before the tokens of a result of the lexer.\<close>

fun before :: "tok list \<Rightarrow> tok list option \<Rightarrow> tok list option" where
  "before ts None = None"
| "before ts (Some us) = Some (ts @ us)"

text \<open>
  A story with a fractional and a negative coordinate, a tag, a tag colour, and a script
  that holds quotes, a backslash and a line break.
\<close>

definition json_story_example :: story where
  \<open>json_story_example =
     (mk_story ''Start''
        [(mk_passage ''Start'' ''Say "hi", then [[Cave]]'')
           \<lparr>p_tags := [''a''], p_x := 3 / 2, p_y := - 20\<rparr>,
         mk_passage ''Cave'' ''Dark.''])
       \<lparr>s_javascript := ''if (a < 1) { b = "x'' @ [CHR 0x5C] @ ''n";'' @ [CHR 0x0A] @ ''}'',
        s_tagColors := [(''a'', ''red'')]\<rparr>\<close>

section \<open>Verified properties\<close>

subsection \<open>Passage names\<close>

lemma trim_empty_iff: "(trim s = []) = (\<forall>c\<in>set s. is_ws c)"
proof -
  have "(\<forall>x\<in>set (dropWhile is_ws s). is_ws x) = (dropWhile is_ws s = [])"
  proof (cases "dropWhile is_ws s")
    case Nil
    then show ?thesis by (simp del: dropWhile_eq_Nil_conv)
  next
    case (Cons a as)
    then have "\<not> is_ws a" using hd_dropWhile [of is_ws s] by simp
    with Cons show ?thesis by (auto simp del: dropWhile_eq_Nil_conv)
  qed
  then show ?thesis
    by (simp add: trim_def dropWhile_eq_Nil_conv)
qed

lemma includes_single: "includes_str s [c] = (c \<in> set s)"
  by (induction s) (auto simp: startsWith_def)

text \<open>
  Claim C9. \<open>validatePassageName\<close> rejects a name exactly when it is empty or all white
  space, or longer than 200 characters, or contains a dot or one of \<open>[ ] { } # $ /\<close>, or
  is one of the six reserved words. The names \<open>a.b\<close>, \<open>a[b]\<close>, \<open>__proto__\<close> and a name
  of 201 characters are rejected; \<open>Cave 2\<close> is accepted.
\<close>

theorem validatePassageName_rejects:
  "(validatePassageName name \<noteq> None) =
     ((\<forall>c\<in>set name. is_ws c) \<or> 200 < length name
      \<or> (\<exists>c\<in>set name. c \<in> set ''.[]{}#$/'')
      \<or> name \<in> {''__proto__'', ''constructor'', ''prototype'', ''hasOwnProperty'',
            ''toString'', ''valueOf''})
   \<and> validatePassageName ''a.b'' \<noteq> None
   \<and> validatePassageName ''a[b]'' \<noteq> None
   \<and> validatePassageName ''__proto__'' \<noteq> None
   \<and> validatePassageName (replicate 201 CHR ''a'') \<noteq> None
   \<and> validatePassageName ''Cave 2'' = None"
proof -
  have gen: "(validatePassageName name \<noteq> None) =
     ((\<forall>c\<in>set name. is_ws c) \<or> 200 < length name
      \<or> (\<exists>c\<in>set name. c \<in> set ''.[]{}#$/'')
      \<or> name \<in> {''__proto__'', ''constructor'', ''prototype'', ''hasOwnProperty'',
            ''toString'', ''valueOf''})" for name
    unfolding validatePassageName_def
    by (auto simp: trim_empty_iff includes_single list_ex_iff invalid_name_chars_def reserved_def)
  have ws: "\<not> is_ws CHR ''a''" "\<not> is_ws CHR ''C''" "\<not> is_ws CHR ''_''"
    by (simp_all add: is_ws_def)
  have e1: "validatePassageName ''a.b'' \<noteq> None" by (subst gen) simp
  have e2: "validatePassageName ''a[b]'' \<noteq> None" by (subst gen) simp
  have e3: "validatePassageName ''__proto__'' \<noteq> None" by (subst gen) simp
  have e4: "validatePassageName (replicate 201 CHR ''a'') \<noteq> None" by (subst gen) simp
  have e5: "validatePassageName ''Cave 2'' = None"
    using gen [of "''Cave 2''"] ws by simp
  show ?thesis by (intro conjI) (rule gen e1 e2 e3 e4 e5)+
qed

theorem validatePassageName_rejects_witness:
  "validatePassageName ''a/b'' \<noteq> None \<and> validatePassageName ''Start'' = None"
proof -
  have "\<not> is_ws CHR ''S''" by (simp add: is_ws_def)
  then show ?thesis
    using validatePassageName_rejects [of "''a/b''"] validatePassageName_rejects [of "''Start''"]
    by simp
qed

subsection \<open>Link extraction\<close>

lemma split_go_nonempty: "split_go sep k s \<noteq> []"
  by (induction sep k s rule: split_go.induct) (auto split: list.splits)









subsection \<open>Link markers\<close>






















subsection \<open>Deleting a passage\<close>


lemma find_other:
  assumes "distinct ks" "2 \<le> length ks"
  shows "\<exists>n. find (\<lambda>n. n \<noteq> sel) ks = Some n \<and> n \<noteq> sel \<and> n \<in> set ks
    \<and> n = hd (filter (\<lambda>n. n \<noteq> sel) ks)"
proof -
  obtain a b r where ks: "ks = a # b # r"
    using assms(2) by (cases ks; cases "tl ks") auto
  then have "a \<noteq> b" using assms(1) by simp
  then show ?thesis using ks by auto
qed

lemma obj_keys_delete: "obj_keys (obj_delete ob k) = filter (\<lambda>n. n \<noteq> k) (obj_keys ob)"
  by (induction ob) (auto simp: obj_keys_def obj_delete_def)

lemma obj_get_delete_other:
  "n \<noteq> k \<Longrightarrow> obj_get (obj_delete ob k) n = obj_get ob n"
  by (induction ob) (auto simp: obj_get_def obj_delete_def)

lemma obj_get_in_keys: "n \<in> set (obj_keys ob) \<Longrightarrow> obj_get ob n \<noteq> None"
  by (simp add: obj_get_def obj_keys_def map_of_eq_None_iff)

text \<open>
  Claim C6. For the owner of the story and a selected passage: when the story has at most
  one passage the handler ends in \<open>LastPassage\<close> and leaves the story unchanged. When
  the story has at least two passages and the selected passage is the start passage, the
  handler (the dialog confirmed, the database write done) deletes the passage and reports
  the new start: the first of the remaining keys in the order of the object, which is set
  as start passage and is a passage of the new story.
\<close>

theorem deletePassage_last_or_repoint:
  "(length (obj_keys (s_passages st)) \<le> 1 \<and> sel \<noteq> []
      \<longrightarrow> deletePassageBtn_click True (Some sel) confirmed db_ok st = (LastPassage, st))
   \<and> (distinct (obj_keys (s_passages st)) \<and> 2 \<le> length (obj_keys (s_passages st))
        \<and> sel \<noteq> [] \<and> s_startPassage st = sel
      \<longrightarrow> (\<exists>n st'. deletePassageBtn_click True (Some sel) True True st = (Deleted (Some n), st')
            \<and> obj_keys (s_passages st') = filter (\<lambda>k. k \<noteq> sel) (obj_keys (s_passages st))
            \<and> n = hd (obj_keys (s_passages st'))
            \<and> s_startPassage st' = n
            \<and> obj_get (s_passages st') n \<noteq> None
            \<and> obj_get (s_passages st') n = obj_get (s_passages st) n))"
proof (intro conjI impI)
  assume "length (obj_keys (s_passages st)) \<le> 1 \<and> sel \<noteq> []"
  then show "deletePassageBtn_click True (Some sel) confirmed db_ok st = (LastPassage, st)"
    by (simp add: deletePassageBtn_click_def)
next
  assume a: "distinct (obj_keys (s_passages st)) \<and> 2 \<le> length (obj_keys (s_passages st))
        \<and> sel \<noteq> [] \<and> s_startPassage st = sel"
  then obtain n where n: "find (\<lambda>n. n \<noteq> sel) (obj_keys (s_passages st)) = Some n"
    "n \<noteq> sel" "n \<in> set (obj_keys (s_passages st))"
    "n = hd (filter (\<lambda>n. n \<noteq> sel) (obj_keys (s_passages st)))"
    using find_other [of "obj_keys (s_passages st)" sel] by blast
  let ?st' = "st\<lparr>s_passages := obj_delete (s_passages st) sel, s_startPassage := n\<rparr>"
  have r: "deletePassageBtn_click True (Some sel) True True st = (Deleted (Some n), ?st')"
    using a n(1) by (simp add: deletePassageBtn_click_def)
  have "obj_get (s_passages ?st') n = obj_get (s_passages st) n"
    using n(2) by (simp add: obj_get_delete_other)
  moreover have "obj_get (s_passages st) n \<noteq> None"
    using n(3) by (rule obj_get_in_keys)
  ultimately show "\<exists>n st'. deletePassageBtn_click True (Some sel) True True st = (Deleted (Some n), st')
            \<and> obj_keys (s_passages st') = filter (\<lambda>k. k \<noteq> sel) (obj_keys (s_passages st))
            \<and> n = hd (obj_keys (s_passages st'))
            \<and> s_startPassage st' = n
            \<and> obj_get (s_passages st') n \<noteq> None
            \<and> obj_get (s_passages st') n = obj_get (s_passages st) n"
    using r n(4) by (intro exI [of _ n] exI [of _ ?st']) (simp add: obj_keys_delete)
qed

theorem deletePassage_last_or_repoint_witness:
  "deletePassageBtn_click True (Some ''Start'') True True (mk_story ''Start'' [mk_passage ''Start'' ''Hello''])
     = (LastPassage, mk_story ''Start'' [mk_passage ''Start'' ''Hello''])
   \<and> fst (deletePassageBtn_click True (Some ''Start'') True True
         (mk_story ''Start'' [mk_passage ''Start'' ''Go: [[Cave]]'', mk_passage ''Cave'' ''Dark.'']))
     = Deleted (Some ''Cave'')"
proof -
  let ?one = "mk_story ''Start'' [mk_passage ''Start'' ''Hello'']"
  let ?two = "mk_story ''Start'' [mk_passage ''Start'' ''Go: [[Cave]]'', mk_passage ''Cave'' ''Dark.'']"
  have k1: "obj_keys (s_passages ?one) = [''Start'']"
    by (simp add: mk_story_def mk_passage_def obj_keys_def)
  have k2: "obj_keys (s_passages ?two) = [''Start'', ''Cave'']" "s_startPassage ?two = ''Start''"
    by (simp_all add: mk_story_def mk_passage_def obj_keys_def)
  have 1: "deletePassageBtn_click True (Some ''Start'') True True ?one = (LastPassage, ?one)"
    using deletePassage_last_or_repoint [of ?one "''Start''" True True] k1 by simp
  have 2: "fst (deletePassageBtn_click True (Some ''Start'') True True ?two) = Deleted (Some ''Cave'')"
    using deletePassage_last_or_repoint [of ?two "''Start''"] k2 by auto
  show ?thesis using 1 2 by simp
qed

subsection \<open>Renaming a passage\<close>

text \<open>
  Claim C5 at a story where the passage \<open>A\<close> holds the marker \<open>[[x->y|Old]]\<close> and the
  passage \<open>Old\<close> is renamed to \<open>New\<close>. The target that \<open>extractLinks\<close> finds in the
  marker is \<open>y|Old\<close>, not \<open>Old\<close>; the rename rewrites the marker all the same.
\<close>

theorem rename_alters_unreferenced_marker:
  "validatePassageName ''New'' = None
   \<and> extractLinks ''[[x->y|Old]]'' = [''y|Old'']
   \<and> rewrite_links ''Old'' ''New'' ''[[x->y|Old]]'' = ''[[x->y|New]]''
   \<and> closePassageEditor True (Some ''Old'') ''New'' ''Dark.'' True
        (mk_story ''A'' [mk_passage ''A'' ''[[x->y|Old]]'', mk_passage ''Old'' ''Dark.''])
      = (Saved, mk_story ''A'' [mk_passage ''A'' ''[[x->y|New]]'', mk_passage ''New'' ''Dark.''])"
proof -
  have 1: "validatePassageName ''New'' = None" by code_simp
  have 2: "extractLinks ''[[x->y|Old]]'' = [''y|Old'']" by code_simp
  have 3: "rewrite_links ''Old'' ''New'' ''[[x->y|Old]]'' = ''[[x->y|New]]''" by code_simp
  have 4: "closePassageEditor True (Some ''Old'') ''New'' ''Dark.'' True
        (mk_story ''A'' [mk_passage ''A'' ''[[x->y|Old]]'', mk_passage ''Old'' ''Dark.''])
      = (Saved, mk_story ''A'' [mk_passage ''A'' ''[[x->y|New]]'', mk_passage ''New'' ''Dark.''])"
    by code_simp
  show ?thesis by (intro conjI) (rule 1 2 3 4)+
qed

subsection \<open>JSON import\<close>

text \<open>
  Claim C10. When the content parses to an object that has both a \<open>title\<close> and a
  \<open>passages\<close> key, \<open>parseJson\<close> returns a story exactly when both values are truthy;
  with a falsy title (the empty string, \<open>0\<close>, \<open>false\<close>, \<open>null\<close>) it returns no result
  although both keys are there.
\<close>

theorem parseJson_falsy_title:
  assumes "JSON_parse content = Some (JObj kvs)"
    "obj_get kvs ''title'' = Some t" "obj_get kvs ''passages'' = Some p"
  shows "(\<not> truthy t \<longrightarrow> parseJson fresh content = None)
     \<and> ((parseJson fresh content \<noteq> None) = (truthy t \<and> truthy p))"
  using assms by (simp add: parseJson_def)

theorem parseJson_falsy_title_witness:
  \<open>parseJson ''F'' ''{"title":"","passages":{"Start":{"name":"Start","content":"Hi"}}}'' = None
   \<and> parseJson ''F'' ''{"title":"Tale","passages":{"Start":{"name":"Start","content":"Hi"}}}'' \<noteq> None\<close>
proof -
  let ?ps = "JObj [(''Start'', JObj [(''name'', JStr ''Start''), (''content'', JStr ''Hi'')])]"
  have a: \<open>JSON_parse ''{"title":"","passages":{"Start":{"name":"Start","content":"Hi"}}}''
      = Some (JObj [(''title'', JStr []), (''passages'', ?ps)])\<close>
    by code_simp
  have b: \<open>JSON_parse ''{"title":"Tale","passages":{"Start":{"name":"Start","content":"Hi"}}}''
      = Some (JObj [(''title'', JStr ''Tale''), (''passages'', ?ps)])\<close>
    by code_simp
  have 1: \<open>parseJson ''F'' ''{"title":"","passages":{"Start":{"name":"Start","content":"Hi"}}}'' = None\<close>
    using parseJson_falsy_title [OF a, of "JStr []" ?ps "''F''"] by (simp add: obj_get_def)
  have 2: \<open>parseJson ''F'' ''{"title":"Tale","passages":{"Start":{"name":"Start","content":"Hi"}}}'' \<noteq> None\<close>
    using parseJson_falsy_title [OF b, of "JStr ''Tale''" ?ps "''F''"] by (simp add: obj_get_def)
  show ?thesis using 1 2 by (rule conjI)
qed

subsection \<open>Line format import\<close>

lemma split_char_none: "c \<notin> set t \<Longrightarrow> split_go [c] 0 t = [t]"
  by (induction t) (auto simp: startsWith_def split: list.splits)

























subsection \<open>Format detection\<close>

lemma lower_char_dot: "(lower_char c = CHR ''.'') = (c = CHR ''.'')"
proof
  assume a: "lower_char c = CHR ''.''"
  show "c = CHR ''.''"
  proof (rule ccontr)
    assume n: "c \<noteq> CHR ''.''"
    then have up: "(65 \<le> (of_char c :: int) \<and> (of_char c :: int) \<le> 90)
        \<or> (192 \<le> (of_char c :: int) \<and> (of_char c :: int) \<le> 222 \<and> (of_char c :: int) \<noteq> 215)"
      using a by (auto simp: lower_char_def Let_def split: if_splits)
    then have "char_of (of_char c + 32 :: int) = CHR ''.''"
      using a by (simp add: lower_char_def Let_def)
    then have "(of_char (char_of (of_char c + 32 :: int)) :: int) = 46" by simp
    moreover have "(of_char (char_of (of_char c + 32 :: int)) :: int) = (of_char c + 32) mod 256"
      by (simp add: of_char_of)
    ultimately show False using up by (auto simp: zmod_trivial_iff split: if_splits) 
  qed
next
  assume "c = CHR ''.''"
  then show "lower_char c = CHR ''.''" by (simp add: lower_char_def)
qed

lemma split_char_two: "tl (split_go [c] 0 (d @ c # t)) \<noteq> []"
proof (induction d)
  case Nil
  then show ?case by (simp add: startsWith_def split_go_nonempty)
next
  case (Cons a d)
  then show ?case
    by (cases "split_go [c] 0 (d @ c # t)") (auto simp: startsWith_def split_go_nonempty)
qed

lemma split_char_last: "last (split_go [c] 0 (d @ c # t)) = last (split_go [c] 0 t)"
proof (induction d)
  case Nil
  then show ?case by (simp add: startsWith_def split_go_nonempty)
next
  case (Cons a d)
  then show ?case
    using split_char_two [of c d t]
    by (cases "split_go [c] 0 (d @ c # t)") (auto simp: startsWith_def split_go_nonempty)
qed

lemma split_dot_last:
  "CHR ''.'' \<notin> set e \<Longrightarrow> last (split (toLowerCase (base @ ''.'' @ e)) ''.'') = toLowerCase e"
proof -
  assume e: "CHR ''.'' \<notin> set e"
  have "lower_char x \<noteq> CHR ''.''" if "x \<in> set e" for x
    using that e lower_char_dot [of x] by blast
  then have n: "CHR ''.'' \<notin> set (toLowerCase e)"
    by (force simp: toLowerCase_def)
  have "toLowerCase (base @ ''.'' @ e) = toLowerCase base @ ''.'' @ toLowerCase e"
    by (simp add: toLowerCase_def lower_char_def)
  then show ?thesis
    using split_char_last [of "CHR ''.''" "toLowerCase base" "toLowerCase e"] split_char_none [OF n]
    by (simp add: split_def)
qed


text \<open>
  Claim C2, as the code has it. The extension is the text after the last dot of the
  lower-cased file name (the whole name when it has no dot). With the extension \<open>json\<close>,
  \<open>twee\<close>, \<open>tw\<close>, \<open>html\<close> or \<open>htm\<close> the result is the result of the parser of that
  format, also when that parser returns no result. Only with any other extension the
  content decides: trimmed content starting with \<open>{\<close> goes to the JSON parser, else
  content containing \<open><tw-storydata\<close> to the archive parser, else content containing
  \<open>::\<close> to the line-format parser, else there is no result.
\<close>

theorem parseFile_dispatch:
  "(CHR ''.'' \<notin> set e \<longrightarrow> last (split (toLowerCase (base @ ''.'' @ e)) ''.'') = toLowerCase e)
   \<and> (CHR ''.'' \<notin> set filename \<longrightarrow> last (split (toLowerCase filename) ''.'') = toLowerCase filename)
   \<and> (last (split (toLowerCase filename) ''.'') = ''json''
        \<longrightarrow> parseFile parseTwine fresh content filename = parseJson fresh content)
   \<and> (last (split (toLowerCase filename) ''.'') \<in> {''twee'', ''tw''}
        \<longrightarrow> parseFile parseTwine fresh content filename = parseTwee fresh content)
   \<and> (last (split (toLowerCase filename) ''.'') \<in> {''html'', ''htm''}
        \<longrightarrow> parseFile parseTwine fresh content filename = parseTwine content)
   \<and> (last (split (toLowerCase filename) ''.'') \<notin> {''json'', ''twee'', ''tw'', ''html'', ''htm''}
        \<longrightarrow> parseFile parseTwine fresh content filename =
            (if startsWith (trim content) ''{'' then parseJson fresh content
             else if includes_str content ''<tw-storydata'' then parseTwine content
             else if includes_str content ''::'' then parseTwee fresh content
             else None))"
proof (intro conjI impI)
  assume "CHR ''.'' \<notin> set e"
  then show "last (split (toLowerCase (base @ ''.'' @ e)) ''.'') = toLowerCase e"
    by (rule split_dot_last)
next
  assume a: "CHR ''.'' \<notin> set filename"
  have "lower_char x \<noteq> CHR ''.''" if "x \<in> set filename" for x
    using that a lower_char_dot [of x] by blast
  then have "CHR ''.'' \<notin> set (toLowerCase filename)" by (force simp: toLowerCase_def)
  then show "last (split (toLowerCase filename) ''.'') = toLowerCase filename"
    by (simp add: split_def split_char_none)
next
  assume "last (split (toLowerCase filename) ''.'') = ''json''"
  then show "parseFile parseTwine fresh content filename = parseJson fresh content"
    by (simp add: parseFile_def)
next
  assume "last (split (toLowerCase filename) ''.'') \<in> {''twee'', ''tw''}"
  then show "parseFile parseTwine fresh content filename = parseTwee fresh content"
    by (auto simp: parseFile_def)
next
  assume "last (split (toLowerCase filename) ''.'') \<in> {''html'', ''htm''}"
  then show "parseFile parseTwine fresh content filename = parseTwine content"
    by (auto simp: parseFile_def split: option.splits)
next
  assume "last (split (toLowerCase filename) ''.'') \<notin> {''json'', ''twee'', ''tw'', ''html'', ''htm''}"
  then show "parseFile parseTwine fresh content filename =
            (if startsWith (trim content) ''{'' then parseJson fresh content
             else if includes_str content ''<tw-storydata'' then parseTwine content
             else if includes_str content ''::'' then parseTwee fresh content
             else None)"
    by (simp add: parseFile_def)
qed

theorem parseFile_dispatch_witness:
  "parseFile archive_absent ''F'' twee_small_example ''Story.TWEE'' = parseTwee ''F'' twee_small_example
   \<and> parseFile archive_absent ''F'' twee_small_example ''notes.txt'' = parseTwee ''F'' twee_small_example
   \<and> parseFile archive_absent ''F'' twee_small_example ''story.json'' = parseJson ''F'' twee_small_example
   \<and> parseFile archive_absent ''F'' twee_small_example ''page.htm'' = archive_absent twee_small_example
   \<and> parseFile archive_absent ''F'' ''plain text'' ''readme'' = None"
proof -
  have lc: "toLowerCase ''TWEE'' = ''twee''" "toLowerCase ''txt'' = ''txt''"
    "toLowerCase ''json'' = ''json''" "toLowerCase ''htm'' = ''htm''"
    "toLowerCase ''readme'' = ''readme''"
    by code_simp+
  have e1: "last (split (toLowerCase ''Story.TWEE'') ''.'') = ''twee''"
    using parseFile_dispatch [of "''TWEE''" "''Story''"] lc by simp
  have e2: "last (split (toLowerCase ''notes.txt'') ''.'') = ''txt''"
    using parseFile_dispatch [of "''txt''" "''notes''"] lc by simp
  have e3: "last (split (toLowerCase ''story.json'') ''.'') = ''json''"
    using parseFile_dispatch [of "''json''" "''story''"] lc by simp
  have e4: "last (split (toLowerCase ''page.htm'') ''.'') = ''htm''"
    using parseFile_dispatch [of "''htm''" "''page''"] lc by simp
  have e5: "last (split (toLowerCase ''readme'') ''.'') = ''readme''"
    using parseFile_dispatch [of _ _ "''readme''"] lc by simp
  have sniff: "\<not> startsWith (trim twee_small_example) ''{''"
    "\<not> includes_str twee_small_example ''<tw-storydata''"
    "includes_str twee_small_example ''::''"
    "\<not> startsWith (trim ''plain text'') ''{''"
    "\<not> includes_str ''plain text'' ''<tw-storydata''"
    "\<not> includes_str ''plain text'' ''::''"
    by code_simp+
  have 1: "parseFile archive_absent ''F'' twee_small_example ''Story.TWEE''
      = parseTwee ''F'' twee_small_example"
    using parseFile_dispatch [of _ _ "''Story.TWEE''" archive_absent "''F''" twee_small_example] e1
    by simp
  have 2: "parseFile archive_absent ''F'' twee_small_example ''notes.txt''
      = parseTwee ''F'' twee_small_example"
    using parseFile_dispatch [of _ _ "''notes.txt''" archive_absent "''F''" twee_small_example] e2 sniff
    by simp
  have 3: "parseFile archive_absent ''F'' twee_small_example ''story.json''
      = parseJson ''F'' twee_small_example"
    using parseFile_dispatch [of _ _ "''story.json''" archive_absent "''F''" twee_small_example] e3
    by simp
  have 4: "parseFile archive_absent ''F'' twee_small_example ''page.htm''
      = archive_absent twee_small_example"
    using parseFile_dispatch [of _ _ "''page.htm''" archive_absent "''F''" twee_small_example] e4
    by simp
  have 5: "parseFile archive_absent ''F'' ''plain text'' ''readme'' = None"
    using parseFile_dispatch [of _ _ "''readme''" archive_absent "''F''" "''plain text''"] e5 sniff
    by simp
  show ?thesis by (intro conjI) (rule 1 2 3 4 5)+
qed

text \<open>
  The claim as stated falls back to sniffing the content when the parser of the
  extension fails. For the file \<open>story.json\<close> whose content is in the line format, the
  JSON parser fails and \<open>parseFile\<close> returns no result, although the content contains
  \<open>::\<close> and the line-format parser reads it.
\<close>

theorem parseFile_no_fallback_counterexample:
  "parseFile archive_absent ''F'' twee_small_example ''story.json'' = None
   \<and> \<not> startsWith (trim twee_small_example) ''{''
   \<and> \<not> includes_str twee_small_example ''<tw-storydata''
   \<and> includes_str twee_small_example ''::''
   \<and> parseTwee ''F'' twee_small_example = Some (JObj
     [(''title'', JStr ''Imported Story''),
      (''startPassage'', JStr ''Start''),
      (''passages'', JObj
         [(''Start'', JObj [(''name'', JStr ''Start''), (''content'', JStr ''Hello''),
            (''tags'', JArr []), (''x'', JNum 100), (''y'', JNum 100), (''width'', JNum 100),
            (''height'', JNum 100)])]),
      (''ifid'', JStr ''F''),
      (''format'', JStr []),
      (''formatVersion'', JStr []),
      (''zoom'', JNum 1),
      (''tags'', JStr []),
      (''stylesheet'', JStr []),
      (''javascript'', JStr []),
      (''tagColors'', JObj [])])"
  by code_simp

subsection \<open>Line format export\<close>





subsection \<open>The playable document\<close>

text \<open>
  Claim C1 at a story whose start passage holds an image element with an event handler
  and a link. The generated document carries the content in its passage data and its
  runtime shows it as markup with the element as it stands; only the title is escaped.
  The player of the editor escapes the same content before it rewrites the link.
\<close>

theorem playable_content_not_escaped:
  \<open>generatePlayableHtml markup_story_example
     = doc_head @ ''Tale'' @ doc_style
       @ ''{"Start":{"name":"Start","content":"<img src=x onerror=alert(1)> [[Go on->Cave]]",''
       @ ''"tags":[],"x":100,"y":100,"width":100,"height":100},''
       @ ''"Cave":{"name":"Cave","content":"Dark.",''
       @ ''"tags":[],"x":100,"y":100,"width":100,"height":100}}''
       @ doc_script_start @ ''Start'' @ doc_script_body @ ''Tale'' @ doc_tail
   \<and> played_markup markup_story_example ''Start''
     = ''<h1>Tale</h1><p><img src=x onerror=alert(1)> ''
       @ ''<span class="link" onclick="showPassage('' @ [CHR 0x27] @ ''Cave'' @ [CHR 0x27]
       @ '')">Go on</span></p>''
   \<and> play markup_story_example ''Start''
     = ''<h1>Tale</h1><p>&lt;img src=x onerror=alert(1)&gt; ''
       @ ''<span class="story-link" data-target="Cave">Go on</span></p>''\<close>
proof -
  have pj: \<open>replace_all (JSON_stringify (passages_json (s_passages markup_story_example)))
        script_close_re (\<lambda>m cp. ''<'' @ [CHR 0x5C] @ ''/script>'')
     = ''{"Start":{"name":"Start","content":"<img src=x onerror=alert(1)> [[Go on->Cave]]",''
       @ ''"tags":[],"x":100,"y":100,"width":100,"height":100},''
       @ ''"Cave":{"name":"Cave","content":"Dark.",''
       @ ''"tags":[],"x":100,"y":100,"width":100,"height":100}}''\<close>
    by code_simp
  have t: "esc (s_title markup_story_example) = ''Tale''"
    "str_or (s_startPassage markup_story_example) ''Start'' = ''Start''"
    by code_simp+
  have 0: \<open>generatePlayableHtml markup_story_example
     = doc_head @ ''Tale'' @ doc_style
       @ ''{"Start":{"name":"Start","content":"<img src=x onerror=alert(1)> [[Go on->Cave]]",''
       @ ''"tags":[],"x":100,"y":100,"width":100,"height":100},''
       @ ''"Cave":{"name":"Cave","content":"Dark.",''
       @ ''"tags":[],"x":100,"y":100,"width":100,"height":100}}''
       @ doc_script_start @ ''Start'' @ doc_script_body @ ''Tale'' @ doc_tail\<close>
    unfolding generatePlayableHtml_def Let_def pj t by simp
  have 1: \<open>played_markup markup_story_example ''Start''
     = ''<h1>Tale</h1><p><img src=x onerror=alert(1)> ''
       @ ''<span class="link" onclick="showPassage('' @ [CHR 0x27] @ ''Cave'' @ [CHR 0x27]
       @ '')">Go on</span></p>''\<close>
    by code_simp
  have 2: \<open>play markup_story_example ''Start''
     = ''<h1>Tale</h1><p>&lt;img src=x onerror=alert(1)&gt; ''
       @ ''<span class="story-link" data-target="Cave">Go on</span></p>''\<close>
    by code_simp
  show ?thesis by (intro conjI) (rule 0 1 2)+
qed

subsection \<open>Numbers as text\<close>

lemma digit_char:
  assumes "0 \<le> d" "d < 10"
  shows "is_digit (char_of (48 + d))" "digit_val (char_of (48 + d :: int)) = d"
proof -
  have "(of_char (char_of (48 + d)) :: int) = (48 + d) mod 256" by (simp add: of_char_of)
  also have "\<dots> = 48 + d" using assms by simp
  finally have e: "(of_char (char_of (48 + d)) :: int) = 48 + d" .
  show "is_digit (char_of (48 + d))" using e assms by (simp add: is_digit_def)
  show "digit_val (char_of (48 + d :: int)) = d" using e by (simp add: digit_val_def)
qed

lemma digits_val_snoc: "digits_val (ds @ [c]) = 10 * digits_val ds + digit_val c"
  by (simp add: digits_val_def)

lemma digits_val_append:
  "digits_val (ds @ es) = digits_val ds * 10 ^ length es + digits_val es"
proof (induction es rule: rev_induct)
  case Nil
  then show ?case by (simp add: digits_val_def)
next
  case (snoc c es)
  have "digits_val (ds @ es @ [c]) = 10 * digits_val (ds @ es) + digit_val c"
    using digits_val_snoc [of "ds @ es" c] by simp
  then show ?case using snoc digits_val_snoc [of es c] by (simp add: algebra_simps)
qed

lemma show_pos_props:
  "0 \<le> n \<Longrightarrow> list_all is_digit (show_pos n) \<and> digits_val (show_pos n) = n
     \<and> show_pos n \<noteq> [] \<and> (hd (show_pos n) = CHR ''0'' \<longrightarrow> n = 0)"
proof (induction n rule: show_pos.induct)
  case (1 n)
  show ?case
  proof (cases "n < 10")
    case True
    have h: "char_of (48 + n) = CHR ''0'' \<Longrightarrow> n = 0"
    proof -
      assume "char_of (48 + n) = CHR ''0''"
      then have "digit_val (char_of (48 + n)) = 0" by (simp add: digit_val_def)
      then show "n = 0" using digit_char(2) [of n] 1(2) True by simp
    qed
    have s: "show_pos n = [char_of (48 + n)]"
      using True by (subst show_pos.simps) simp
    show ?thesis
      unfolding s using True 1(2) digit_char [of n] h
      by (simp add: digits_val_def)
  next
    case False
    then have ih: "list_all is_digit (show_pos (n div 10))"
      "digits_val (show_pos (n div 10)) = n div 10" "show_pos (n div 10) \<noteq> []"
      "hd (show_pos (n div 10)) = CHR ''0'' \<longrightarrow> n div 10 = 0"
      using 1 by simp_all
    have d: "0 \<le> n mod 10" "n mod 10 < 10" by simp_all
    have s: "show_pos n = show_pos (n div 10) @ [char_of (48 + n mod 10)]"
      using False by (subst show_pos.simps) simp
    have nz: "n div 10 \<noteq> 0" using False by simp
    show ?thesis
      unfolding s using ih digit_char [OF d] nz
      by (simp add: digits_val_snoc)
  qed
qed


lemma digits_val_Cons: "digits_val (c # cs) = digit_val c * 10 ^ length cs + digits_val cs"
  using digits_val_append [of "[c]" cs] by (simp add: digits_val_def)

lemma frac_digits_props:
  "0 \<le> f \<Longrightarrow> f < 1 \<Longrightarrow> of_int \<lfloor>f * 10 ^ k\<rfloor> = f * 10 ^ k
   \<Longrightarrow> list_all is_digit (frac_digits k f)
       \<and> of_int (digits_val (frac_digits k f)) / 10 ^ length (frac_digits k f) = f
       \<and> (f \<noteq> 0 \<longrightarrow> frac_digits k f \<noteq> [])"
proof (induction k arbitrary: f)
  case 0
  then have "\<lfloor>f\<rfloor> = 0" by (simp add: floor_eq_iff)
  then have "f = 0" using 0(3) by simp
  then show ?case by (simp add: digits_val_def)
next
  case (Suc k)
  show ?case
  proof (cases "f = 0")
    case True
    then show ?thesis by (simp add: digits_val_def)
  next
    case False
    define d where "d = \<lfloor>10 * f\<rfloor>"
    define f' where "f' = 10 * f - of_int d"
    have d0: "0 \<le> d" using Suc.prems(1) by (simp add: d_def)
    have "10 * f < 10" using Suc.prems(2) by simp
    then have d9: "d < 10" unfolding d_def by (simp add: floor_less_iff)
    have f0: "0 \<le> f'" unfolding f'_def d_def by (simp add: of_int_floor_le)
    have f1: "f' < 1" unfolding f'_def d_def by linarith
    obtain N where N: "f * 10 ^ Suc k = of_int N" using Suc.prems(3) by metis
    have "f' * 10 ^ k = f * 10 ^ Suc k - of_int d * 10 ^ k"
      by (simp add: f'_def algebra_simps)
    also have "\<dots> = of_int (N - d * 10 ^ k)"
      unfolding N by simp
    finally have fk: "f' * 10 ^ k = of_int (N - d * 10 ^ k)" .
    have "of_int \<lfloor>f' * 10 ^ k\<rfloor> = f' * 10 ^ k"
      unfolding fk by (simp only: floor_of_int)
    then have ih: "list_all is_digit (frac_digits k f')"
      "of_int (digits_val (frac_digits k f')) / 10 ^ length (frac_digits k f') = f'"
      using Suc.IH [OF f0 f1] by simp_all
    have s: "frac_digits (Suc k) f = char_of (48 + d) # frac_digits k f'"
      using False by (simp add: d_def f'_def)
    have v: "of_int (digits_val (frac_digits k f')) = f' * 10 ^ length (frac_digits k f')"
      using ih(2) by (simp add: field_simps)
    have "of_int (digits_val (char_of (48 + d) # frac_digits k f'))
        / 10 ^ length (char_of (48 + d) # frac_digits k f') = f"
      using digit_char(2) [OF d0 d9] v
      by (simp add: digits_val_Cons f'_def field_simps)
    then show ?thesis
      unfolding s using ih(1) digit_char(1) [OF d0 d9] by simp
  qed
qed

lemma takeWhile_digits:
  assumes "list_all is_digit ds" "ends_number rest \<or> (\<exists>t. rest = CHR ''.'' # t)"
  shows "takeWhile is_digit (ds @ rest) = ds"
proof -
  have "takeWhile is_digit (ds @ rest) = ds @ takeWhile is_digit rest"
    using assms(1) by (intro takeWhile_append2) (simp add: list_all_iff)
  moreover have "takeWhile is_digit rest = []"
    using assms(2) by (cases rest) (auto simp: ends_number_def is_digit_def)
  ultimately show ?thesis by simp
qed


lemma lex_number_parts:
  assumes ip: "list_all is_digit ip" "ip \<noteq> []" "hd ip = CHR ''0'' \<longrightarrow> ip = ''0''"
    and fd: "list_all is_digit fd"
    and rest: "ends_number rest"
  shows "lex_number ((if neg then ''-'' else []) @ ip @ (if fd = [] then [] else ''.'' @ fd) @ rest)
     = Some ((if neg then - 1 else 1) * (of_int (digits_val (ip @ fd)) / 10 ^ length fd),
             length ((if neg then ''-'' else []) @ ip @ (if fd = [] then [] else ''.'' @ fd)))"
proof -
  let ?tail = "(if fd = [] then [] else ''.'' @ fd) @ rest"
  let ?body = "ip @ ?tail"
  obtain c cs where ipc: "ip = c # cs" using ip(2) by (cases ip) auto
  have cd: "is_digit c" using ip(1) ipc by simp
  then have cm: "c \<noteq> CHR ''-''" by (auto simp: is_digit_def)
  have sg: "num_sign ((if neg then ''-'' else []) @ ?body) = (neg, ?body)"
    using ipc cm by (simp add: num_sign_def startsWith_def)
  have t0: "ends_number ?tail \<or> (\<exists>t. ?tail = CHR ''.'' # t)"
    using rest by auto
  have tw: "takeWhile is_digit ?body = ip" using takeWhile_digits [OF ip(1) t0] .
  have ipart: "(if startsWith ?body ''0'' then ''0'' else takeWhile is_digit ?body) = ip"
  proof (cases "c = CHR ''0''")
    case True
    then have "ip = ''0''" using ip(3) ipc by simp
    then show ?thesis by (simp add: startsWith_def)
  next
    case False
    then have "\<not> startsWith ?body ''0''" using ipc by (simp add: startsWith_def)
    then show ?thesis using tw by simp
  qed
  have ni: "num_int ?body = (ip, ?tail)"
    unfolding num_int_def Let_def ipart by simp
  have fp: "takeWhile is_digit (fd @ rest) = fd"
    using takeWhile_digits [OF fd] rest by blast
  have nf: "num_frac ?tail = (fd \<noteq> [], fd, rest)"
  proof (cases "fd = []")
    case True
    then show ?thesis
      using rest by (cases rest) (auto simp: num_frac_def startsWith_def ends_number_def)
  next
    case False
    then show ?thesis using fp by (simp add: num_frac_def startsWith_def)
  qed
  have ne: "num_exp rest = (False, False, False, [])"
    using rest by (cases rest) (auto simp: num_exp_def startsWith_def ends_number_def)
  have nn: "ip \<noteq> []" by (rule ip(2))
  show ?thesis
    unfolding lex_number_def sg ni nf ne prod.case
    using nn by (simp add: digits_val_def)
qed


lemma lex_number_show:
  assumes "decimal20 r" "ends_number rest"
  shows "lex_number (num_to_string r @ rest) = Some (r, length (num_to_string r))"
proof -
  define a where "a = \<bar>r\<bar>"
  define n where "n = \<lfloor>a\<rfloor>"
  define f where "f = a - of_int n"
  define fd where "fd = frac_digits 20 f"
  have n0: "0 \<le> n" unfolding n_def a_def by simp
  have f0: "0 \<le> f" unfolding f_def n_def by (simp add: of_int_floor_le)
  have f1: "f < 1" unfolding f_def n_def by linarith
  obtain M where M: "a * 10 ^ 20 = of_int M"
    using assms(1) unfolding decimal20_def a_def by metis
  have "f * 10 ^ 20 = a * 10 ^ 20 - of_int n * 10 ^ 20" by (simp add: f_def algebra_simps)
  also have "\<dots> = of_int (M - n * 10 ^ 20)" unfolding M by simp
  finally have fk: "f * 10 ^ 20 = of_int (M - n * 10 ^ 20)" .
  have fi: "of_int \<lfloor>f * 10 ^ 20\<rfloor> = f * 10 ^ 20" unfolding fk by (simp only: floor_of_int)
  have fdp: "list_all is_digit fd" "of_int (digits_val fd) / 10 ^ length fd = f"
    "f \<noteq> 0 \<longrightarrow> fd \<noteq> []"
    using frac_digits_props [OF f0 f1 fi] unfolding fd_def by simp_all
  have fz: "(f = 0) = (fd = [])"
    using fdp(3) unfolding fd_def by (auto simp: eval_nat_numeral)
  have ipp: "list_all is_digit (show_pos n)" "digits_val (show_pos n) = n" "show_pos n \<noteq> []"
    "hd (show_pos n) = CHR ''0'' \<longrightarrow> n = 0"
    using show_pos_props [OF n0] by simp_all
  have z: "show_pos 0 = ''0''" by code_simp
  have ip0: "hd (show_pos n) = CHR ''0'' \<longrightarrow> show_pos n = ''0''"
    using ipp(4) z by auto
  have str: "num_to_string r @ rest
      = (if r < 0 then ''-'' else []) @ show_pos n @ (if fd = [] then [] else ''.'' @ fd) @ rest"
    unfolding num_to_string_def Let_def a_def [symmetric] n_def [symmetric] f_def [symmetric]
      fd_def [symmetric] fz by simp
  have len: "length (num_to_string r)
      = length ((if r < 0 then ''-'' else []) @ show_pos n @ (if fd = [] then [] else ''.'' @ fd))"
    unfolding num_to_string_def Let_def a_def [symmetric] n_def [symmetric] f_def [symmetric]
      fd_def [symmetric] fz by simp
  have v: "of_int (digits_val fd) = f * 10 ^ length fd"
    using fdp(2) by (simp add: field_simps)
  have "of_int (digits_val (show_pos n @ fd)) / 10 ^ length fd = a"
    unfolding digits_val_append ipp(2) using v by (simp add: f_def field_simps)
  then have val: "(if r < 0 then - 1 else 1) * (of_int (digits_val (show_pos n @ fd)) / 10 ^ length fd) = r"
    unfolding a_def by simp
  show ?thesis
    unfolding str len
    using lex_number_parts [OF ipp(1) ipp(3) ip0 fdp(1) assms(2), of "r < 0"] val
    by simp
qed

subsection \<open>Strings as text\<close>

lemma hex_digit_val: "0 \<le> d \<Longrightarrow> d < 16 \<Longrightarrow> hex_val (hex_digit d) = Some d"
proof -
  assume d: "0 \<le> d" "d < 16"
  show ?thesis
  proof (cases "d < 10")
    case True
    have "(of_char (char_of (48 + d)) :: int) = (48 + d) mod 256" by (simp add: of_char_of)
    then have "(of_char (char_of (48 + d)) :: int) = 48 + d" using d True by simp
    then show ?thesis using d True by (simp add: hex_val_def hex_digit_def Let_def)
  next
    case False
    have "(of_char (char_of (87 + d)) :: int) = (87 + d) mod 256" by (simp add: of_char_of)
    then have "(of_char (char_of (87 + d)) :: int) = 87 + d" using d False by simp
    then show ?thesis using d False by (simp add: hex_val_def hex_digit_def Let_def)
  qed
qed

lemma char_of_div_mod: "char_of (16 * ((of_char c :: int) div 16) + of_char c mod 16) = c"
  by simp

lemma hex4_escape:
  assumes "(of_char c :: int) < 32"
  shows "hex4 [CHR ''0'', CHR ''0'', hex_digit (of_char c div 16), hex_digit (of_char c mod 16)]
     = Some c"
proof -
  have z: "hex_val CHR ''0'' = Some 0" by code_simp
  have nn: "0 \<le> (of_char c :: int)"
    using of_nat_of_char [of c, where ?'a = int] by (metis of_nat_0_le_iff)
  have hi: "hex_val (hex_digit (of_char c div 16)) = Some (of_char c div 16)"
    using assms nn by (intro hex_digit_val) auto
  have lo: "hex_val (hex_digit (of_char c mod 16)) = Some (of_char c mod 16)"
    by (intro hex_digit_val) auto
  show ?thesis
    unfolding hex4_def using z hi lo char_of_div_mod [of c] by simp
qed

lemma lex_string_escape_char:
  "lex_string (escape_char c @ t)
   = map_option (\<lambda>(s, n). (c # s, n + length (escape_char c))) (lex_string t)"
proof -
  consider (quote) "c = CHR 0x22" | (bs) "c = CHR 0x5C" | (b) "c = CHR 0x08" | (f) "c = CHR 0x0C"
    | (n) "c = CHR 0x0A" | (r) "c = CHR 0x0D" | (t) "c = CHR 0x09"
    | (ctl) "c \<notin> {CHR 0x22, CHR 0x5C, CHR 0x08, CHR 0x0C, CHR 0x0A, CHR 0x0D, CHR 0x09}"
        "(of_char c :: int) < 32"
    | (plain) "c \<notin> {CHR 0x22, CHR 0x5C, CHR 0x08, CHR 0x0C, CHR 0x0A, CHR 0x0D, CHR 0x09}"
        "\<not> (of_char c :: int) < 32"
    by blast
  then show ?thesis
  proof cases
    case ctl
    have e: "escape_char c = [CHR 0x5C, CHR ''u'', CHR ''0'', CHR ''0'',
        hex_digit (of_char c div 16), hex_digit (of_char c mod 16)]"
      using ctl by (simp add: escape_char_def)
    show ?thesis
      unfolding e using hex4_escape [OF ctl(2)]
      by (cases "lex_string t") (auto simp: comp_def)
  next
    case plain
    then show ?thesis
      by (cases "lex_string t") (auto simp: escape_char_def)
  qed (cases "lex_string t"; simp add: escape_char_def unescape_def; fail)+
qed

lemma lex_string_quote:
  "lex_string (concat (map escape_char s) @ CHR 0x22 # rest)
   = Some (s, Suc (length (concat (map escape_char s))))"
proof (induction s)
  case Nil
  then show ?case by simp
next
  case (Cons c s)
  show ?case
    using lex_string_escape_char [of c "concat (map escape_char s) @ CHR 0x22 # rest"] Cons
    by simp
qed


subsection \<open>The tokens of a printed value\<close>

lemma lex_skip: "lex_go (length m) (m @ rest) = lex_go 0 rest"
  by (induction m) (auto simp: lex_go.simps)

lemma lex_spaces: "lex_go 0 (replicate n CHR '' '' @ t) = lex_go 0 t"
  by (induction n) (auto simp: is_json_ws_def lex_go.simps)

lemma lex_newline: "lex_go 0 (CHR 0x0A # t) = lex_go 0 t"
  by (simp add: is_json_ws_def lex_go.simps)

lemma lex_quote: "lex_go 0 (quote s @ rest) = tcons (TStr s) (lex_go 0 rest)"
proof -
  let ?e = "concat (map escape_char s)"
  have "lex_go (Suc (length ?e)) ((?e @ [CHR 0x22]) @ rest) = lex_go 0 rest"
    using lex_skip [of "?e @ [CHR 0x22]" rest] by simp
  then show ?thesis
    using lex_string_quote [of s rest]
    by (simp add: quote_def is_json_ws_def lex_go.simps)
qed

lemma digit_not_special:
  "is_digit c \<Longrightarrow> \<not> is_json_ws c \<and> c \<notin> set ''{}[]:,'' \<and> c \<noteq> CHR 0x22"
  by (auto simp: is_digit_def is_json_ws_def)

lemma num_to_string_head:
  "\<exists>c cs. num_to_string r = c # cs \<and> (c = CHR ''-'' \<or> is_digit c)"
proof -
  have n0: "0 \<le> \<lfloor>\<bar>r\<bar>\<rfloor>" by simp
  obtain d ds where d: "show_pos \<lfloor>\<bar>r\<bar>\<rfloor> = d # ds"
    using show_pos_props [OF n0] by (cases "show_pos \<lfloor>\<bar>r\<bar>\<rfloor>") auto
  then have "is_digit d" using show_pos_props [OF n0] by simp
  then show ?thesis using d by (auto simp: num_to_string_def Let_def)
qed

lemma lex_num:
  assumes "decimal20 r" "ends_number rest"
  shows "lex_go 0 (num_to_string r @ rest) = tcons (TNum r) (lex_go 0 rest)"
proof -
  obtain c cs where c: "num_to_string r = c # cs" "c = CHR ''-'' \<or> is_digit c"
    using num_to_string_head by blast
  have sp: "\<not> is_json_ws c \<and> c \<notin> set ''{}[]:,'' \<and> c \<noteq> CHR 0x22"
  proof (cases "c = CHR ''-''")
    case True
    then show ?thesis by (simp add: is_json_ws_def)
  next
    case False
    then have "is_digit c" using c(2) by simp
    then show ?thesis by (rule digit_not_special)
  qed
  have n: "lex_number (c # cs @ rest) = Some (r, Suc (length cs))"
    using lex_number_show [OF assms] c(1) by simp
  have "lex_go (length cs) (cs @ rest) = lex_go 0 rest" by (rule lex_skip)
  then show ?thesis
    using c sp n by (simp add: lex_go.simps)
qed

lemma lex_literals:
  "lex_go 0 (CHR ''n'' # CHR ''u'' # CHR ''l'' # CHR ''l'' # rest) = tcons TNull (lex_go 0 rest)"
  "lex_go 0 (CHR ''t'' # CHR ''r'' # CHR ''u'' # CHR ''e'' # rest) = tcons TTrue (lex_go 0 rest)"
  "lex_go 0 (CHR ''f'' # CHR ''a'' # CHR ''l'' # CHR ''s'' # CHR ''e'' # rest)
   = tcons TFalse (lex_go 0 rest)"
  by (simp_all add: is_json_ws_def is_digit_def startsWith_def eval_nat_numeral lex_go.simps)

lemma lex_punct:
  "lex_go 0 (CHR ''['' # t) = tcons TLBrack (lex_go 0 t)"
  "lex_go 0 (CHR '']'' # t) = tcons TRBrack (lex_go 0 t)"
  "lex_go 0 (CHR ''{'' # t) = tcons TLBrace (lex_go 0 t)"
  "lex_go 0 (CHR ''}'' # t) = tcons TRBrace (lex_go 0 t)"
  "lex_go 0 (CHR '','' # t) = tcons TComma (lex_go 0 t)"
  "lex_go 0 (CHR '':'' # t) = tcons TColon (lex_go 0 t)"
  by (simp_all add: is_json_ws_def lex_go.simps)

lemma tcons_alt: "tcons t r = before [t] r"
  by (cases r) (simp_all add: tcons_def)

lemma pre_pre: "before a (before b r) = before (a @ b) r"
  by (cases r) simp_all

lemma ends_number_simps:
  "ends_number (CHR '','' # t)" "ends_number (CHR 0x0A # t)" "ends_number []"
  by (simp_all add: ends_number_def is_digit_def)

lemma lex_elems:
  assumes el: "\<And>w t. w \<in> set ws \<Longrightarrow> ends_number t
      \<Longrightarrow> lex_go 0 (S w @ t) = before (T w) (lex_go 0 t)"
    and ne: "ws \<noteq> []" and t: "ends_number t"
  shows "lex_go 0 (join (map (\<lambda>w. replicate n CHR '' '' @ S w) ws) ('','' @ [CHR 0x0A]) @ t)
     = before (sep_toks (map T ws)) (lex_go 0 t)"
  using el ne
proof (induction ws rule: induct_list012)
  case 1
  then show ?case by simp
next
  case (2 w)
  then show ?case using t by (simp add: lex_spaces)
next
  case (3 w w' ws)
  let ?rest = "join (map (\<lambda>w. replicate n CHR '' '' @ S w) (w' # ws)) ('','' @ [CHR 0x0A]) @ t"
  have ih: "lex_go 0 ?rest = before (sep_toks (map T (w' # ws))) (lex_go 0 t)"
    using 3 by simp
  have "lex_go 0 (replicate n CHR '' '' @ S w @ CHR '','' # CHR 0x0A # ?rest)
      = before (T w) (lex_go 0 (CHR '','' # CHR 0x0A # ?rest))"
    using 3(3) [of w "CHR '','' # CHR 0x0A # ?rest"] ends_number_simps(1)
    by (simp add: lex_spaces)
  also have "\<dots> = before (T w) (before [TComma] (lex_go 0 ?rest))"
    by (simp add: lex_punct lex_newline tcons_alt)
  also have "\<dots> = before (T w @ TComma # sep_toks (map T (w' # ws))) (lex_go 0 t)"
    unfolding ih by (simp add: pre_pre)
  finally show ?case by simp
qed

lemma lex_value:
  "wf_json v \<Longrightarrow> ends_number rest
   \<Longrightarrow> lex_go 0 (stringify_pretty ind v @ rest) = before (toks v) (lex_go 0 rest)"
proof (induction v arbitrary: ind rest)
  case JNull
  then show ?case by (simp add: lex_literals tcons_alt)
next
  case (JBool b)
  then show ?case by (cases b) (simp_all add: lex_literals tcons_alt)
next
  case (JNum r)
  then show ?case by (simp add: lex_num tcons_alt)
next
  case (JStr s)
  then show ?case by (simp add: lex_quote tcons_alt)
next
  case (JArr vs)
  show ?case
  proof (cases "vs = []")
    case True
    then show ?thesis by (simp add: lex_punct tcons_alt pre_pre)
  next
    case False
    let ?t = "CHR 0x0A # replicate ind CHR '' '' @ CHR '']'' # rest"
    have el: "lex_go 0 (stringify_pretty (ind + 2) w @ t) = before (toks w) (lex_go 0 t)"
      if "w \<in> set vs" "ends_number t" for w t
      using JArr.IH [OF that(1) _ that(2)] JArr.prems(1) that(1) by (simp add: list_all_iff)
    have "lex_go 0 (join (map (\<lambda>w. replicate (ind + 2) CHR '' '' @ stringify_pretty (ind + 2) w) vs)
          ('','' @ [CHR 0x0A]) @ ?t)
        = before (sep_toks (map toks vs)) (lex_go 0 ?t)"
      by (rule lex_elems [OF el False ends_number_simps(2)])
    moreover have "lex_go 0 ?t = before [TRBrack] (lex_go 0 rest)"
      by (simp add: lex_newline lex_spaces lex_punct tcons_alt)
    ultimately show ?thesis
      using False by (simp add: lex_punct lex_newline tcons_alt pre_pre)
  qed
next
  case (JObj kvs)
  show ?case
  proof (cases "kvs = []")
    case True
    then show ?thesis by (simp add: lex_punct tcons_alt pre_pre)
  next
    case False
    let ?t = "CHR 0x0A # replicate ind CHR '' '' @ CHR ''}'' # rest"
    let ?S = "\<lambda>kv. quote (fst kv) @ '': '' @ stringify_pretty (ind + 2) (snd kv)"
    let ?T = "\<lambda>kv. TStr (fst kv) # TColon # toks (snd kv)"
    have el: "lex_go 0 (?S kv @ t) = before (?T kv) (lex_go 0 t)"
      if "kv \<in> set kvs" "ends_number t" for kv t
    proof -
      have w: "wf_json (snd kv)" using JObj.prems(1) that(1) by (simp add: list_all_iff)
      have s: "snd kv \<in> Basic_BNFs.snds kv" by (cases kv) simp
      have "lex_go 0 (stringify_pretty (ind + 2) (snd kv) @ t)
          = before (toks (snd kv)) (lex_go 0 t)"
        using JObj.IH [OF that(1) s w that(2)] .
      moreover have "lex_go 0 (CHR '' '' # u) = lex_go 0 u" for u
        by (simp add: is_json_ws_def lex_go.simps)
      ultimately show ?thesis
        by (simp add: lex_quote lex_punct tcons_alt pre_pre)
    qed
    have m: "(\<lambda>(k, v). replicate (ind + 2) CHR '' '' @ quote k @ '': '' @ stringify_pretty (ind + 2) v)
        = (\<lambda>kv. replicate (ind + 2) CHR '' '' @ ?S kv)"
      by (simp add: fun_eq_iff split_def)
    have "lex_go 0 (join (map (\<lambda>kv. replicate (ind + 2) CHR '' '' @ ?S kv) kvs)
          ('','' @ [CHR 0x0A]) @ ?t)
        = before (sep_toks (map ?T kvs)) (lex_go 0 ?t)"
      by (rule lex_elems [OF el False ends_number_simps(2)])
    moreover have "lex_go 0 ?t = before [TRBrace] (lex_go 0 rest)"
      by (simp add: lex_newline lex_spaces lex_punct tcons_alt)
    ultimately show ?thesis
      using False unfolding stringify_pretty.simps m
      by (simp add: lex_punct lex_newline tcons_alt pre_pre)
  qed
qed

subsection \<open>The parser on the tokens of a value\<close>


lemma prun_elems:
  assumes el: "\<And>w m st ts. w \<in> set ws \<Longrightarrow> m = MValue \<or> m = MValueOrClose
      \<Longrightarrow> prun m st (toks w @ ts)
        = (case attach w st of None \<Rightarrow> None | Some (m', st') \<Rightarrow> prun m' st' ts)"
    and ne: "ws \<noteq> []" and m: "m = MValue \<or> m = MValueOrClose"
  shows "prun m (InArr es # st) (sep_toks (map toks ws) @ TRBrack # ts)
     = (case attach (JArr (es @ ws)) st of None \<Rightarrow> None | Some (m', st') \<Rightarrow> prun m' st' ts)"
  using el ne m
proof (induction ws arbitrary: es m rule: induct_list012)
  case 1
  then show ?case by simp
next
  case (2 w)
  have "prun m (InArr es # st) (toks w @ TRBrack # ts)
      = prun MCommaOrClose (InArr (es @ [w]) # st) (TRBrack # ts)"
    using 2(1) [of w m "InArr es # st" "TRBrack # ts"] 2(3) by simp
  then show ?case by simp
next
  case (3 w w' ws)
  let ?rest = "sep_toks (map toks (w' # ws)) @ TRBrack # ts"
  have "prun m (InArr es # st) (toks w @ TComma # ?rest)
      = prun MCommaOrClose (InArr (es @ [w]) # st) (TComma # ?rest)"
    using 3(3) [of w m "InArr es # st" "TComma # ?rest"] 3(5) by simp
  also have "\<dots> = prun MValue (InArr (es @ [w]) # st) ?rest"
    by simp
  also have "\<dots> = (case attach (JArr ((es @ [w]) @ w' # ws)) st of
        None \<Rightarrow> None | Some (m', st') \<Rightarrow> prun m' st' ts)"
    using 3(2) [where es = "es @ [w]" and m = MValue] 3(3) by simp
  finally show ?case by simp
qed

lemma prun_members:
  assumes el: "\<And>kv m st ts. kv \<in> set kvs \<Longrightarrow> m = MValue \<or> m = MValueOrClose
      \<Longrightarrow> prun m st (toks (snd kv) @ ts)
        = (case attach (snd kv) st of None \<Rightarrow> None | Some (m', st') \<Rightarrow> prun m' st' ts)"
    and ne: "kvs \<noteq> []" and m: "m = MKey \<or> m = MKeyOrClose" and b: "built ms kvs"
  shows "prun m (InObj ms # st)
        (sep_toks (map (\<lambda>kv. TStr (fst kv) # TColon # toks (snd kv)) kvs) @ TRBrace # ts)
     = (case attach (JObj (ms @ kvs)) st of None \<Rightarrow> None | Some (m', st') \<Rightarrow> prun m' st' ts)"
  using el ne m b
proof (induction kvs arbitrary: ms m rule: induct_list012)
  case 1
  then show ?case by simp
next
  case (2 kv)
  have s: "obj_set ms (fst kv) (snd kv) = ms @ [kv]" using 2(4) by simp
  have "prun m (InObj ms # st) (TStr (fst kv) # TColon # toks (snd kv) @ TRBrace # ts)
      = prun MValue (InObjKey ms (fst kv) # st) (toks (snd kv) @ TRBrace # ts)"
    using 2(3) by auto
  also have "\<dots> = prun MCommaOrClose (InObj (ms @ [kv]) # st) (TRBrace # ts)"
    using 2(1) [of kv MValue "InObjKey ms (fst kv) # st" "TRBrace # ts"] s by simp
  finally show ?case by simp
next
  case (3 kv kv' kvs)
  let ?T = "\<lambda>kv. TStr (fst kv) # TColon # toks (snd kv)"
  let ?rest = "sep_toks (map ?T (kv' # kvs)) @ TRBrace # ts"
  have s: "obj_set ms (fst kv) (snd kv) = ms @ [kv]" and b': "built (ms @ [kv]) (kv' # kvs)"
    using 3(6) by simp_all
  have "prun m (InObj ms # st) (TStr (fst kv) # TColon # toks (snd kv) @ TComma # ?rest)
      = prun MValue (InObjKey ms (fst kv) # st) (toks (snd kv) @ TComma # ?rest)"
    using 3(5) by auto
  also have "\<dots> = prun MCommaOrClose (InObj (ms @ [kv]) # st) (TComma # ?rest)"
    using 3(3) [of kv MValue "InObjKey ms (fst kv) # st" "TComma # ?rest"] s by simp
  also have "\<dots> = prun MKey (InObj (ms @ [kv]) # st) ?rest"
    by simp
  also have "\<dots> = (case attach (JObj ((ms @ [kv]) @ kv' # kvs)) st of
        None \<Rightarrow> None | Some (m', st') \<Rightarrow> prun m' st' ts)"
    using 3(2) [where ms = "ms @ [kv]" and m = MKey] 3(3) b' by simp
  finally show ?case by simp
qed

lemma prun_value:
  "wf_json v \<Longrightarrow> m = MValue \<or> m = MValueOrClose
   \<Longrightarrow> prun m st (toks v @ ts)
     = (case attach v st of None \<Rightarrow> None | Some (m', st') \<Rightarrow> prun m' st' ts)"
proof (induction v arbitrary: m st ts)
  case JNull
  then show ?case by auto
next
  case (JBool b)
  then show ?case by (cases b) auto
next
  case (JNum r)
  then show ?case by auto
next
  case (JStr s)
  then show ?case by auto
next
  case (JArr vs)
  show ?case
  proof (cases "vs = []")
    case True
    then show ?thesis using JArr.prems(2) by auto
  next
    case False
    have el: "prun m st (toks w @ ts)
        = (case attach w st of None \<Rightarrow> None | Some (m', st') \<Rightarrow> prun m' st' ts)"
      if "w \<in> set vs" "m = MValue \<or> m = MValueOrClose" for w m st ts
      using JArr.IH [OF that(1) _ that(2)] JArr.prems(1) that(1) by (simp add: list_all_iff)
    have "prun MValueOrClose (InArr [] # st) (sep_toks (map toks vs) @ TRBrack # ts)
        = (case attach (JArr ([] @ vs)) st of None \<Rightarrow> None | Some (m', st') \<Rightarrow> prun m' st' ts)"
      by (rule prun_elems [OF el False]) simp_all
    then show ?thesis using JArr.prems(2) by auto
  qed
next
  case (JObj kvs)
  show ?case
  proof (cases "kvs = []")
    case True
    then show ?thesis using JObj.prems(2) by auto
  next
    case False
    have el: "prun m st (toks (snd kv) @ ts)
        = (case attach (snd kv) st of None \<Rightarrow> None | Some (m', st') \<Rightarrow> prun m' st' ts)"
      if "kv \<in> set kvs" "m = MValue \<or> m = MValueOrClose" for kv m st ts
    proof -
      have w: "wf_json (snd kv)" using JObj.prems(1) that(1) by (simp add: list_all_iff)
      have s: "snd kv \<in> Basic_BNFs.snds kv" by (cases kv) simp
      show ?thesis using JObj.IH [OF that(1) s w that(2)] .
    qed
    have b: "built [] kvs" using JObj.prems(1) by (simp add: is_object_def)
    have "prun MKeyOrClose (InObj [] # st)
          (sep_toks (map (\<lambda>kv. TStr (fst kv) # TColon # toks (snd kv)) kvs) @ TRBrace # ts)
        = (case attach (JObj ([] @ kvs)) st of None \<Rightarrow> None | Some (m', st') \<Rightarrow> prun m' st' ts)"
      by (rule prun_members [OF el False _ b]) simp_all
    then show ?thesis using JObj.prems(2) by auto
  qed
qed

lemma JSON_parse_stringify:
  assumes "wf_json v"
  shows "JSON_parse (stringify_pretty 0 v) = Some v"
proof -
  have "lex_go 0 (stringify_pretty 0 v @ []) = before (toks v) (lex_go 0 [])"
    by (rule lex_value [OF assms]) (simp add: ends_number_def)
  then have l: "lex_go 0 (stringify_pretty 0 v) = Some (toks v)"
    by (simp add: lex_go.simps)
  have "prun MValue [] (toks v @ [])
      = (case attach v [] of None \<Rightarrow> None | Some (m', st') \<Rightarrow> prun m' st' [])"
    by (rule prun_value [OF assms]) simp
  then show ?thesis by (simp add: JSON_parse_def l)
qed

subsection \<open>The value of a story is well formed\<close>

lemma obj_insert_index_map:
  "obj_insert_index n k (g v) (map (\<lambda>(k, p). (k, g p)) ob)
   = map (\<lambda>(k, p). (k, g p)) (obj_insert_index n k v ob)"
  by (induction ob) (auto split: option.splits)

lemma obj_set_map:
  "obj_set (map (\<lambda>(k, p). (k, g p)) ob) k (g v) = map (\<lambda>(k, p). (k, g p)) (obj_set ob k v)"
proof -
  have k: "obj_keys (map (\<lambda>(k, p). (k, g p)) ob) = obj_keys ob"
    by (induction ob) (auto simp: obj_keys_def)
  have m: "map (\<lambda>(k', v'). if k' = k then (k', g v) else (k', v')) (map (\<lambda>(k, p). (k, g p)) ob)
      = map (\<lambda>(k, p). (k, g p)) (map (\<lambda>(k', v'). if k' = k then (k', v) else (k', v')) ob)"
    by (induction ob) auto
  show ?thesis
    unfolding obj_set_def k using m
    by (simp add: obj_insert_index_map split: option.splits)
qed

lemma built_map:
  "built acc kvs \<Longrightarrow> built (map (\<lambda>(k, p). (k, g p)) acc) (map (\<lambda>(k, p). (k, g p)) kvs)"
proof (induction kvs arbitrary: acc)
  case Nil
  then show ?case by simp
next
  case (Cons kv kvs)
  obtain k v where kv: "kv = (k, v)" by (cases kv)
  have s: "obj_set acc k v = acc @ [(k, v)]" and b: "built (acc @ [(k, v)]) kvs"
    using Cons.prems kv by simp_all
  have "obj_set (map (\<lambda>(k, p). (k, g p)) acc) k (g v) = map (\<lambda>(k, p). (k, g p)) acc @ [(k, g v)]"
    using obj_set_map [of g acc k v] s by simp
  moreover have "built (map (\<lambda>(k, p). (k, g p)) (acc @ [(k, v)])) (map (\<lambda>(k, p). (k, g p)) kvs)"
    using Cons.IH [OF b] .
  ultimately show ?case using kv by simp
qed

lemma is_object_map: "is_object kvs \<Longrightarrow> is_object (map (\<lambda>(k, p). (k, g p)) kvs)"
  using built_map [of "[]" kvs g] by (simp add: is_object_def)

lemma decimal20_of_int: "decimal20 (of_int n)"
proof -
  have "\<bar>rat_of_int n\<bar> * 10 ^ 20 = of_int (\<bar>n\<bar> * 10 ^ 20)" by simp
  then show ?thesis unfolding decimal20_def by (simp only: floor_of_int)
qed

lemma passage_fields_object:
  "is_object [(''name'', a), (''content'', b), (''tags'', c), (''x'', d), (''y'', e),
     (''width'', f), (''height'', g)]"
  by (simp add: is_object_def obj_set_def obj_keys_def index_key_def is_digit_def)

lemma story_fields_object:
  "is_object [(''title'', a), (''startPassage'', b), (''passages'', c), (''ifid'', d),
     (''format'', e), (''formatVersion'', f), (''zoom'', g), (''tags'', h),
     (''stylesheet'', i), (''javascript'', j), (''tagColors'', k)]"
  by (simp add: is_object_def obj_set_def obj_keys_def index_key_def is_digit_def)

lemma wf_passage_json:
  "decimal20 (p_x p) \<Longrightarrow> decimal20 (p_y p) \<Longrightarrow> wf_json (passage_json p)"
  unfolding passage_json_def
  by (simp add: passage_fields_object decimal20_of_int list_all_iff)

lemma wf_passages_json:
  assumes "is_object ps" "list_all (\<lambda>p. decimal20 (p_x p) \<and> decimal20 (p_y p)) (obj_values ps)"
  shows "wf_json (passages_json ps)"
proof -
  have "wf_json (passage_json p)" if "(k, p) \<in> set ps" for k p
  proof -
    have "p \<in> set (obj_values ps)" using that by (force simp: obj_values_def)
    then show ?thesis using assms(2) by (simp add: list_all_iff wf_passage_json)
  qed
  then show ?thesis
    using is_object_map [OF assms(1), of passage_json]
    by (auto simp: passages_json_def list_all_iff)
qed

lemma wf_story_json:
  assumes "story_inv s"
  shows "wf_json (story_json s)"
proof -
  have p: "wf_json (passages_json (s_passages s))"
    using assms by (intro wf_passages_json) (simp_all add: story_inv_def)
  have c: "wf_json (JObj (map (\<lambda>(k, c). (k, JStr c)) (s_tagColors s)))"
    using is_object_map [of "s_tagColors s" JStr] assms
    by (auto simp: story_inv_def list_all_iff)
  have z: "decimal20 (s_zoom s)" using assms by (simp add: story_inv_def)
  show ?thesis
    unfolding story_json_def using p c z
    by (simp add: story_fields_object)
qed

lemma start_not_empty:
  assumes "story_inv s"
  shows "s_startPassage s \<noteq> []"
proof
  assume e: "s_startPassage s = []"
  have "validatePassageName (s_startPassage s) = None"
    using assms by (auto simp: story_inv_def list_all_iff)
  then show False unfolding e by (simp add: validatePassageName_def)
qed

lemma or_else_str: "or_else (Some (JStr x)) (JStr []) = JStr x"
  by simp

text \<open>
  Claim C4. For every story that satisfies the invariants of the data model (a title and
  an identifier that are not empty, a start passage that is one of the passages, valid
  passage names, a positive zoom), \<open>parseJson\<close> applied to the text that \<open>exportAsJson\<close>
  produces returns the story again, with every field as it was: the title, the start
  passage, all passages, the identifier, the format and its version, the zoom, the tags,
  the stylesheet, the script and the tag colours. Numbers are decimal fractions with at
  most twenty fraction digits.
\<close>

theorem parseJson_exportAsJson_roundtrip:
  assumes "story_inv s"
  shows "parseJson fresh (exportAsJson s) = Some (story_json s)"
proof -
  have j: "JSON_parse (exportAsJson s) = Some (story_json s)"
    unfolding exportAsJson_def by (rule JSON_parse_stringify [OF wf_story_json [OF assms]])
  have t: "s_title s \<noteq> []" and i: "s_ifid s \<noteq> []" and z: "s_zoom s \<noteq> 0"
    using assms by (simp_all add: story_inv_def)
  have st: "s_startPassage s \<noteq> []" by (rule start_not_empty [OF assms])
  show ?thesis
    unfolding parseJson_def j
    by (simp add: story_json_def obj_get_def passages_json_def t i z st)
qed

theorem parseJson_exportAsJson_roundtrip_witness:
  "story_inv json_story_example
   \<and> parseJson ''F'' (exportAsJson json_story_example) = Some (story_json json_story_example)"
proof -
  have i: "story_inv json_story_example" by code_simp
  show ?thesis using parseJson_exportAsJson_roundtrip [OF i, of "''F''"] i by simp
qed

end
